theory Spec2Isabelle
  imports Complex_Main "HOL-Library.Sublist" "HOL-Library.AList"
begin

section \<open>JavaScript values shared by the modules\<close>

text \<open>
  Token counts are natural numbers. Prices and costs are IEEE doubles in the source; they
  are modelled by exact rationals, with \<open>NaN\<close> kept apart, since the only way the code
  under study reaches \<open>NaN\<close> is arithmetic on \<open>undefined\<close>.
\<close>

datatype jsnum = Num rat | NaN

text \<open>\<open>String(n)\<close> for a non-negative integer, as a template literal prints it.\<close>

definition digit_char :: "nat \<Rightarrow> char" where
  "digit_char d = ''0123456789'' ! d"

fun String_of_nat :: "nat \<Rightarrow> string" where
  "String_of_nat n = (if n < 10 then [digit_char n] else String_of_nat (n div 10) @ [digit_char (n mod 10)])"

declare String_of_nat.simps [simp del]

text \<open>\<open>String.prototype.toLowerCase\<close> on ASCII text (bytes above 127 are left alone).\<close>

definition toLowerCase_char :: "char \<Rightarrow> char" where
  "toLowerCase_char c =
     (case map_of (zip ''ABCDEFGHIJKLMNOPQRSTUVWXYZ'' ''abcdefghijklmnopqrstuvwxyz'') c of
        Some l \<Rightarrow> l
      | None \<Rightarrow> c)"

definition toLowerCase :: "string \<Rightarrow> string" where
  "toLowerCase s = map toLowerCase_char s"

text \<open>\<open>s.startsWith(k)\<close>.\<close>

definition startsWith :: "string \<Rightarrow> string \<Rightarrow> bool" where
  "startsWith s k = prefix k s"

section \<open>Cost calculator (\<open>src/utils/cost-calculator.js\<close>)\<close>

record pricing =
  price_input :: rat
  price_output :: rat

record usage =
  promptTokens :: nat
  completionTokens :: nat
  totalTokens :: nat

text \<open>
  A usage object as a caller hands it to \<open>addUsage\<close>: every field may be missing
  (\<open>undefined\<close>), which \<open>|| 0\<close> turns into 0.
\<close>

record usage_arg =
  arg_promptTokens :: "nat option"
  arg_completionTokens :: "nat option"
  arg_totalTokens :: "nat option"

definition or_zero :: "nat option \<Rightarrow> nat" where
  "or_zero v = (case v of None \<Rightarrow> 0 | Some n \<Rightarrow> n)"

text \<open>The table \<open>MODEL_PRICING\<close>, in the order of the object literal.\<close>

definition MODEL_PRICING :: "(string \<times> pricing) list" where
  "MODEL_PRICING =
    [(''gpt-4-turbo'', \<lparr>price_input = 1/100, price_output = 3/100\<rparr>),
     (''gpt-4-turbo-preview'', \<lparr>price_input = 1/100, price_output = 3/100\<rparr>),
     (''gpt-4-1106-preview'', \<lparr>price_input = 1/100, price_output = 3/100\<rparr>),
     (''gpt-4-0125-preview'', \<lparr>price_input = 1/100, price_output = 3/100\<rparr>),
     (''gpt-4'', \<lparr>price_input = 3/100, price_output = 6/100\<rparr>),
     (''gpt-4-0613'', \<lparr>price_input = 3/100, price_output = 6/100\<rparr>),
     (''gpt-4-32k'', \<lparr>price_input = 6/100, price_output = 12/100\<rparr>),
     (''gpt-4-32k-0613'', \<lparr>price_input = 6/100, price_output = 12/100\<rparr>),
     (''gpt-4o'', \<lparr>price_input = 5/1000, price_output = 15/1000\<rparr>),
     (''gpt-4o-2024-05-13'', \<lparr>price_input = 5/1000, price_output = 15/1000\<rparr>),
     (''gpt-4o-mini'', \<lparr>price_input = 15/100000, price_output = 6/10000\<rparr>),
     (''gpt-4o-mini-2024-07-18'', \<lparr>price_input = 15/100000, price_output = 6/10000\<rparr>),
     (''gpt-3.5-turbo'', \<lparr>price_input = 5/10000, price_output = 15/10000\<rparr>),
     (''gpt-3.5-turbo-0125'', \<lparr>price_input = 5/10000, price_output = 15/10000\<rparr>),
     (''gpt-3.5-turbo-1106'', \<lparr>price_input = 1/1000, price_output = 2/1000\<rparr>),
     (''gpt-3.5-turbo-instruct'', \<lparr>price_input = 15/10000, price_output = 2/1000\<rparr>),
     (''gpt-3.5-turbo-16k'', \<lparr>price_input = 3/1000, price_output = 4/1000\<rparr>)]"

definition DEFAULT_PRICING :: pricing where
  "DEFAULT_PRICING = \<lparr>price_input = 3/100, price_output = 6/100\<rparr>"

text \<open>
  \<open>MODEL_PRICING\<close> is a plain object literal, so \<open>MODEL_PRICING[model]\<close> also finds
  the members it inherits from \<open>Object.prototype\<close>; all of them are truthy.
\<close>

definition Object_prototype_keys :: "string list" where
  "Object_prototype_keys =
    [''constructor'', ''__defineGetter__'', ''__defineSetter__'', ''hasOwnProperty'',
     ''__lookupGetter__'', ''__lookupSetter__'', ''isPrototypeOf'', ''propertyIsEnumerable'',
     ''toString'', ''valueOf'', ''__proto__'', ''toLocaleString'']"

subsection \<open>Objects and references\<close>

text \<open>
  The pricing records, the tracker's running usage and everything the tracker hands out
  are JavaScript objects, reached through references. \<open>Entry k\<close> is the object stored
  under key \<open>k\<close> of \<open>MODEL_PRICING\<close>, \<open>Default\<close> is \<open>DEFAULT_PRICING\<close>,
  \<open>Fresh n\<close> is the \<open>n\<close>-th object allocated at run time, and \<open>ProtoMember k\<close> is the
  member \<open>k\<close> of \<open>Object.prototype\<close> (a function, or the prototype itself), which has
  neither an \<open>input\<close> nor an \<open>output\<close> property.
\<close>

datatype ref = Entry string | Default | Fresh nat | ProtoMember string

record breakdown =
  inputCost :: jsnum
  outputCost :: jsnum

text \<open>
  The object \<open>getSummary\<close> returns. \<open>formattedCost\<close> is left out: it is a primitive
  string derived from \<open>cost\<close> and holds no reference.
\<close>

record summary =
  summary_model :: string
  summary_pricing :: ref
  summary_usage :: ref
  summary_cost :: jsnum
  summary_breakdown :: ref

datatype obj = PricingObj pricing | UsageObj usage | BreakdownObj breakdown | SummaryObj summary

record store =
  heap :: "ref \<Rightarrow> obj option"
  next_addr :: nat

text \<open>The store once the module is loaded: the table's entries and the default record.\<close>

definition initial_store :: store where
  "initial_store =
     \<lparr>heap = (\<lambda>r. case r of
                 Entry k \<Rightarrow> map_option PricingObj (map_of MODEL_PRICING k)
               | Default \<Rightarrow> Some (PricingObj DEFAULT_PRICING)
               | _ \<Rightarrow> None),
      next_addr = 0\<rparr>"

definition alloc :: "obj \<Rightarrow> store \<Rightarrow> ref \<times> store" where
  "alloc v st =
     (Fresh (next_addr st),
      st\<lparr>heap := (heap st)(Fresh (next_addr st) \<mapsto> v), next_addr := Suc (next_addr st)\<rparr>)"

text \<open>A caller assigning to the fields of an object it holds: the object's new contents.\<close>

definition mutate :: "ref \<Rightarrow> obj \<Rightarrow> store \<Rightarrow> store" where
  "mutate r v st = st\<lparr>heap := (heap st)(r \<mapsto> v)\<rparr>"

definition pricing_at :: "store \<Rightarrow> ref \<Rightarrow> pricing option" where
  "pricing_at st r = (case heap st r of Some (PricingObj p) \<Rightarrow> Some p | _ \<Rightarrow> None)"

definition usage_at :: "store \<Rightarrow> ref \<Rightarrow> usage option" where
  "usage_at st r = (case heap st r of Some (UsageObj u) \<Rightarrow> Some u | _ \<Rightarrow> None)"

subsection \<open>\<open>getModelPricing\<close> and \<open>calculateCost\<close>\<close>

text \<open>The \<open>for ... of Object.entries(MODEL_PRICING)\<close> loop: the first key that matches.\<close>

fun prefix_loop :: "string \<Rightarrow> string list \<Rightarrow> ref" where
  "prefix_loop modelLower [] = Default"
| "prefix_loop modelLower (key # rest) =
     (if startsWith modelLower key \<or> startsWith key modelLower then Entry key
      else prefix_loop modelLower rest)"

definition getModelPricing :: "string \<Rightarrow> ref" where
  "getModelPricing model =
     (if model \<in> set (map fst MODEL_PRICING) then Entry model
      else if model \<in> set Object_prototype_keys then ProtoMember model
      else prefix_loop (toLowerCase model) (map fst MODEL_PRICING))"

text \<open>
  \<open>calculateCost(usage, model)\<close> on a usage with numeric fields. A pricing without
  \<open>input\<close> and \<open>output\<close> makes both products \<open>NaN\<close>.
\<close>

definition calculateCost :: "store \<Rightarrow> usage \<Rightarrow> string \<Rightarrow> jsnum" where
  "calculateCost st u model =
     (case pricing_at st (getModelPricing model) of
        Some p \<Rightarrow> Num (of_nat (promptTokens u) / 1000 * price_input p
                        + of_nat (completionTokens u) / 1000 * price_output p)
      | None \<Rightarrow> NaN)"

subsection \<open>\<open>createCostTracker\<close>\<close>

text \<open>The closure: \<open>model\<close>, the reference held in \<open>totalUsage\<close>, and \<open>totalCost\<close>.\<close>

record tracker =
  trk_model :: string
  trk_totalUsage :: ref
  trk_totalCost :: jsnum

definition createCostTracker :: "string \<Rightarrow> store \<Rightarrow> tracker \<times> store" where
  "createCostTracker model st =
     (let (a, st') = alloc (UsageObj \<lparr>promptTokens = 0, completionTokens = 0, totalTokens = 0\<rparr>) st
      in (\<lparr>trk_model = model, trk_totalUsage = a, trk_totalCost = Num 0\<rparr>, st'))"

text \<open>
  \<open>addUsage\<close> updates the object behind \<open>totalUsage\<close> in place and recomputes
  \<open>totalCost\<close>. The last case cannot arise: the closure's object is always a usage.
\<close>

definition addUsage :: "usage_arg \<Rightarrow> tracker \<times> store \<Rightarrow> tracker \<times> store" where
  "addUsage u ts =
     (let (t, st) = ts in
      case usage_at st (trk_totalUsage t) of
        Some tu \<Rightarrow>
          (let tu' = \<lparr>promptTokens = promptTokens tu + or_zero (arg_promptTokens u),
                      completionTokens = completionTokens tu + or_zero (arg_completionTokens u),
                      totalTokens = totalTokens tu + or_zero (arg_totalTokens u)\<rparr>;
               st' = mutate (trk_totalUsage t) (UsageObj tu') st
           in (t\<lparr>trk_totalCost := calculateCost st' tu' (trk_model t)\<rparr>, st'))
      | None \<Rightarrow> (t, st))"

definition getTotalCost :: "tracker \<Rightarrow> jsnum" where
  "getTotalCost t = trk_totalCost t"

text \<open>\<open>{ ...totalUsage }\<close>: a new object with the fields of the closure's one.\<close>

definition getTotalUsage :: "tracker \<Rightarrow> store \<Rightarrow> ref \<times> store" where
  "getTotalUsage t st =
     (case usage_at st (trk_totalUsage t) of
        Some tu \<Rightarrow> alloc (UsageObj tu) st
      | None \<Rightarrow> (trk_totalUsage t, st))"

definition times_price :: "nat \<Rightarrow> rat option \<Rightarrow> jsnum" where
  "times_price n price = (case price of Some x \<Rightarrow> Num (of_nat n / 1000 * x) | None \<Rightarrow> NaN)"

definition getSummary :: "tracker \<Rightarrow> store \<Rightarrow> ref \<times> store" where
  "getSummary t st =
     (case usage_at st (trk_totalUsage t) of
        Some tu \<Rightarrow>
          (let pricing = getModelPricing (trk_model t);
               (u, st1) = alloc (UsageObj tu) st;
               (b, st2) = alloc (BreakdownObj
                            \<lparr>inputCost = times_price (promptTokens tu) (map_option price_input (pricing_at st pricing)),
                             outputCost = times_price (completionTokens tu) (map_option price_output (pricing_at st pricing))\<rparr>) st1
           in alloc (SummaryObj \<lparr>summary_model = trk_model t, summary_pricing = pricing,
                                 summary_usage = u, summary_cost = trk_totalCost t,
                                 summary_breakdown = b\<rparr>) st2)
      | None \<Rightarrow> (trk_totalUsage t, st))"

subsection \<open>What a caller of the tracker observes\<close>

text \<open>
  A caller drives the tracker through its methods. \<open>run\<close> lists what each call returns,
  objects being read out field by field at the moment they are returned.
\<close>

datatype call = AddUsage usage_arg | GetTotalCost | GetTotalUsage | GetSummary

record summary_view =
  view_model :: string
  view_pricing :: "pricing option"
  view_usage :: "usage option"
  view_cost :: jsnum
  view_breakdown :: "breakdown option"

datatype result = Done | Cost jsnum | Usage "usage option" | Summary "summary_view option"

definition summary_at :: "store \<Rightarrow> ref \<Rightarrow> summary option" where
  "summary_at st r = (case heap st r of Some (SummaryObj s) \<Rightarrow> Some s | _ \<Rightarrow> None)"

definition breakdown_at :: "store \<Rightarrow> ref \<Rightarrow> breakdown option" where
  "breakdown_at st r = (case heap st r of Some (BreakdownObj b) \<Rightarrow> Some b | _ \<Rightarrow> None)"

definition read_summary :: "store \<Rightarrow> ref \<Rightarrow> summary_view option" where
  "read_summary st r =
     map_option (\<lambda>s. \<lparr>view_model = summary_model s,
                      view_pricing = pricing_at st (summary_pricing s),
                      view_usage = usage_at st (summary_usage s),
                      view_cost = summary_cost s,
                      view_breakdown = breakdown_at st (summary_breakdown s)\<rparr>) (summary_at st r)"

fun step :: "call \<Rightarrow> tracker \<times> store \<Rightarrow> result \<times> (tracker \<times> store)" where
  "step (AddUsage u) ts = (Done, addUsage u ts)"
| "step GetTotalCost (t, st) = (Cost (getTotalCost t), (t, st))"
| "step GetTotalUsage (t, st) =
     (let (r, st') = getTotalUsage t st in (Usage (usage_at st' r), (t, st')))"
| "step GetSummary (t, st) =
     (let (r, st') = getSummary t st in (Summary (read_summary st' r), (t, st')))"

fun run :: "call list \<Rightarrow> tracker \<times> store \<Rightarrow> result list" where
  "run [] ts = []"
| "run (c # cs) ts = fst (step c ts) # run cs (snd (step c ts))"

fun exec :: "call list \<Rightarrow> tracker \<times> store \<Rightarrow> tracker \<times> store" where
  "exec [] ts = ts"
| "exec (c # cs) ts = exec cs (snd (step c ts))"

text \<open>
  The objects a summary is made of, the pricing record apart: the summary itself, its
  \<open>usage\<close> and its \<open>breakdown\<close>.
\<close>

definition summary_parts :: "store \<Rightarrow> ref \<Rightarrow> ref set" where
  "summary_parts st s =
     (case summary_at st s of
        Some v \<Rightarrow> {s, summary_usage v, summary_breakdown v}
      | None \<Rightarrow> {s})"

text \<open>A caller assigning, one after the other, to objects it holds.\<close>

definition mutate_all :: "(ref \<times> obj) list \<Rightarrow> store \<Rightarrow> store" where
  "mutate_all ms st = fold (\<lambda>(r, v). mutate r v) ms st"

subsection \<open>Notions used to state the properties of the cost calculator\<close>

text \<open>The test of the prefix loop.\<close>

definition key_matches :: "string \<Rightarrow> string \<Rightarrow> bool" where
  "key_matches modelLower key = (startsWith modelLower key \<or> startsWith key modelLower)"

text \<open>
  The second tier as the specification words it: among the keys that are a prefix of the
  lower-cased model name, the longest.
\<close>

fun longest_prefix_key :: "string \<Rightarrow> string list \<Rightarrow> string option" where
  "longest_prefix_key m [] = None"
| "longest_prefix_key m (k # ks) =
     (case longest_prefix_key m ks of
        None \<Rightarrow> (if prefix k m then Some k else None)
      | Some k' \<Rightarrow> (if prefix k m \<and> length k' < length k then Some k else Some k'))"

definition spec_pricingFor :: "string \<Rightarrow> ref" where
  "spec_pricingFor model =
     (if model \<in> set (map fst MODEL_PRICING) then Entry model
      else case longest_prefix_key (toLowerCase model) (map fst MODEL_PRICING) of
             Some k \<Rightarrow> Entry k
           | None \<Rightarrow> Default)"


definition add_usage :: "usage \<Rightarrow> usage_arg \<Rightarrow> usage" where
  "add_usage tu u =
     \<lparr>promptTokens = promptTokens tu + or_zero (arg_promptTokens u),
      completionTokens = completionTokens tu + or_zero (arg_completionTokens u),
      totalTokens = totalTokens tu + or_zero (arg_totalTokens u)\<rparr>"


definition tracker_wf :: "tracker \<times> store \<Rightarrow> bool" where
  "tracker_wf ts =
     (case ts of (t, st) \<Rightarrow>
        \<exists>n tu. trk_totalUsage t = Fresh n \<and> n < next_addr st \<and> usage_at st (Fresh n) = Some tu)"

text \<open>Two stores that differ at most in the run-time objects numbered in \<open>D\<close>.\<close>

definition agree :: "nat set \<Rightarrow> store \<Rightarrow> store \<Rightarrow> bool" where
  "agree D st st' =
     (next_addr st = next_addr st' \<and> (\<forall>r. r \<notin> Fresh ` D \<longrightarrow> heap st r = heap st' r))"

definition owned :: "nat set \<Rightarrow> tracker \<times> store \<Rightarrow> bool" where
  "owned D ts =
     (case ts of (t, st) \<Rightarrow> trk_totalUsage t \<notin> Fresh ` D \<and> (\<forall>n \<in> D. n < next_addr st))"


section \<open>Section catalogue (\<open>src/config/sections.js\<close>)\<close>

text \<open>
  A section of the catalogue. The two free-text fields \<open>description\<close> and
  \<open>promptTemplate\<close> only feed the prompt text and are left out.
\<close>

record section_entry =
  section_id :: string
  label :: string
  defaultChunks :: nat

definition SECTIONS :: "section_entry list" where
  "SECTIONS =
    [\<lparr>section_id = ''core_prompts'', label = ''Core Edition Prompts'', defaultChunks = 12\<rparr>,
     \<lparr>section_id = ''premium_prompts'', label = ''Premium Edition Prompts'', defaultChunks = 14\<rparr>,
     \<lparr>section_id = ''automation'', label = ''Automation Workflows'', defaultChunks = 5\<rparr>,
     \<lparr>section_id = ''sales_pages'',
      label = ''Sales Pages (FE, OTO1, OTO2, Downsell, Lead Magnet)'', defaultChunks = 5\<rparr>,
     \<lparr>section_id = ''thank_you'', label = ''Thank You Pages'', defaultChunks = 5\<rparr>,
     \<lparr>section_id = ''launch_emails'', label = ''Launch Email Sequences'', defaultChunks = 2\<rparr>,
     \<lparr>section_id = ''affiliate_toolkit'', label = ''Affiliate Toolkit'', defaultChunks = 4\<rparr>,
     \<lparr>section_id = ''branding'', label = ''Branding Docs'', defaultChunks = 2\<rparr>,
     \<lparr>section_id = ''jvzoo_docs'', label = ''JVZoo Listing & Funnel Docs'', defaultChunks = 3\<rparr>,
     \<lparr>section_id = ''readmes'', label = ''README & Licensing'', defaultChunks = 3\<rparr>]"

text \<open>\<open>SECTIONS.find((section) => section.id === id)\<close>; \<open>None\<close> is \<open>undefined\<close>.\<close>

definition getSectionById :: "string \<Rightarrow> section_entry option" where
  "getSectionById i = find (\<lambda>section. section_id section = i) SECTIONS"

section \<open>The world a run acts on\<close>

text \<open>
  Errors are objects with an optional numeric \<open>status\<close> and a \<open>message\<close>; a missing
  message is the empty string (both are falsy).
\<close>

record js_error =
  err_status :: "nat option"
  err_message :: string

text \<open>\<open>new Error(msg)\<close>.\<close>

definition new_Error :: "string \<Rightarrow> js_error" where
  "new_Error msg = \<lparr>err_status = None, err_message = msg\<rparr>"

text \<open>The fields of the branding configuration that the prompt quotes.\<close>

record branding =
  primaryColor :: string
  secondaryColor :: string
  footerText :: string

text \<open>
  The argument of \<open>client.chat.completions.create\<close>. The user message is
  \<open>buildPrompt(section, chunkIndex, totalChunks, branding)\<close>, a fixed template filled
  with these four values; the request records the values instead of the text.
\<close>

record request =
  req_model :: string
  req_section :: section_entry
  req_chunkIndex :: nat
  req_totalChunks :: nat
  req_branding :: branding
  req_temperature :: rat
  req_max_tokens :: nat

text \<open>The response of the completion endpoint, with everything that may be absent.\<close>

record chat_message =
  msg_content :: "string option"

record choice =
  choice_message :: "chat_message option"

record api_usage =
  prompt_tokens :: "nat option"
  completion_tokens :: "nat option"
  total_tokens :: "nat option"

record completion =
  choices :: "choice list"
  completion_usage :: "api_usage option"

text \<open>Files hold text, a rendered PDF of a text, or an archive with its entries in order.\<close>

datatype content = Text string | Pdf string | Archive "(string \<times> content) list"

datatype node = File content | Directory

type_synonym path = "string list"

type_synonym filesystem = "(path \<times> node) list"

text \<open>
  What a run does that can be observed from outside, in the order it happens. A request
  to the client is \<open>ClientCall\<close>; the promise settling, with a completion or an error,
  is \<open>ClientReply\<close>.
\<close>

datatype event =
    ClientCall request
  | ClientReply "js_error + completion"
  | Warn_rate_limited nat nat nat
  | Warn_attempt_failed nat string nat
  | Sleep nat
  | OnProgress nat string usage
  | EnsureDir path
  | WriteFile path content
  | ReadDir path
  | ReadFile path
  | RenderPdf path
  | ProgressStart nat
  | ProgressIncrement string nat nat
  | ProgressStop
  | LogError string

text \<open>
  A client is any state machine: from its state and a request it resolves with a
  completion or rejects with an error, and moves to a new state.
\<close>

type_synonym 's client = "'s \<Rightarrow> request \<Rightarrow> (js_error + completion) \<times> 's"

record 's world =
  client_state :: 's
  trace :: "event list"
  disk :: filesystem
  objects :: store

definition emit :: "event list \<Rightarrow> 's world \<Rightarrow> 's world" where
  "emit es w = w\<lparr>trace := trace w @ es\<rparr>"

section \<open>Content generator (\<open>src/generators/content-generator.js\<close>)\<close>

record chunk_options =
  opt_model :: string
  opt_temperature :: rat
  opt_maxTokens :: "nat option"
  opt_section :: section_entry
  opt_chunkIndex :: nat
  opt_totalChunks :: nat
  opt_branding :: branding
  opt_maxRetries :: "nat option"
  opt_retryDelay :: "nat option"

record chunk_result =
  chunk_content :: string
  chunk_usage :: usage

text \<open>The defaults of the destructuring: \<open>maxTokens = 4000, maxRetries = 3, retryDelay = 1000\<close>.\<close>

definition maxTokens_of :: "chunk_options \<Rightarrow> nat" where
  "maxTokens_of opts = (case opt_maxTokens opts of None \<Rightarrow> 4000 | Some n \<Rightarrow> n)"

definition maxRetries_of :: "chunk_options \<Rightarrow> nat" where
  "maxRetries_of opts = (case opt_maxRetries opts of None \<Rightarrow> 3 | Some n \<Rightarrow> n)"

definition retryDelay_of :: "chunk_options \<Rightarrow> nat" where
  "retryDelay_of opts = (case opt_retryDelay opts of None \<Rightarrow> 1000 | Some n \<Rightarrow> n)"

definition request_of :: "chunk_options \<Rightarrow> request" where
  "request_of opts =
     \<lparr>req_model = opt_model opts, req_section = opt_section opts,
      req_chunkIndex = opt_chunkIndex opts, req_totalChunks = opt_totalChunks opts,
      req_branding = opt_branding opts, req_temperature = opt_temperature opts,
      req_max_tokens = maxTokens_of opts\<rparr>"

text \<open>\<open>completion.choices[0]?.message?.content\<close>.\<close>

definition first_content :: "completion \<Rightarrow> string option" where
  "first_content c =
     (case choices c of
        [] \<Rightarrow> None
      | ch # _ \<Rightarrow> (case choice_message ch of None \<Rightarrow> None | Some m \<Rightarrow> msg_content m))"

text \<open>\<open>completion.usage?.prompt_tokens || 0\<close> and its two siblings.\<close>

definition extract_usage :: "completion \<Rightarrow> usage" where
  "extract_usage c =
     (case completion_usage c of
        None \<Rightarrow> \<lparr>promptTokens = 0, completionTokens = 0, totalTokens = 0\<rparr>
      | Some u \<Rightarrow> \<lparr>promptTokens = or_zero (prompt_tokens u),
                    completionTokens = or_zero (completion_tokens u),
                    totalTokens = or_zero (total_tokens u)\<rparr>)"

text \<open>
  The body of the \<open>try\<close> block once the call has settled: what is returned, or the error
  that reaches the \<open>catch\<close> clause.
\<close>

definition try_body :: "js_error + completion \<Rightarrow> js_error + chunk_result" where
  "try_body outcome =
     (case outcome of
        Inl error \<Rightarrow> Inl error
      | Inr c \<Rightarrow>
          (case first_content c of
             None \<Rightarrow> Inl (new_Error ''Empty response from OpenAI API'')
           | Some text \<Rightarrow>
               if text = [] then Inl (new_Error ''Empty response from OpenAI API'')
               else Inr \<lparr>chunk_content = text, chunk_usage = extract_usage c\<rparr>))"

text \<open>One pass through the \<open>try\<close> block: the request is sent and its outcome examined.\<close>

definition attempt_once :: "'s client \<Rightarrow> chunk_options \<Rightarrow> 's world \<Rightarrow> (js_error + chunk_result) \<times> 's world" where
  "attempt_once client opts w =
     (let (outcome, s') = client (client_state w) (request_of opts)
      in (try_body outcome,
          emit [ClientCall (request_of opts), ClientReply outcome] (w\<lparr>client_state := s'\<rparr>)))"

text \<open>\<open>lastError?.message || 'Unknown error'\<close>.\<close>

definition last_message :: "js_error option \<Rightarrow> string" where
  "last_message lastError =
     (case lastError of
        None \<Rightarrow> ''Unknown error''
      | Some e \<Rightarrow> if err_message e = [] then ''Unknown error'' else err_message e)"

definition exhausted :: "nat \<Rightarrow> js_error option \<Rightarrow> js_error" where
  "exhausted maxRetries lastError =
     new_Error (''Failed to generate content after '' @ String_of_nat maxRetries
                @ '' attempts: '' @ last_message lastError)"

text \<open>
  The loop \<open>for (let attempt = 1; attempt <= maxRetries; attempt++)\<close> of
  \<open>generateChunk\<close>, entered at \<open>attempt\<close> with the current \<open>lastError\<close>, and the
  \<open>throw\<close> that follows it.
\<close>

function attempt_loop ::
  "'s client \<Rightarrow> chunk_options \<Rightarrow> nat \<Rightarrow> js_error option \<Rightarrow> 's world \<Rightarrow> (js_error + chunk_result) \<times> 's world" where
  "attempt_loop client opts attempt lastError w =
     (if attempt \<le> maxRetries_of opts then
        (case attempt_once client opts w of
           (Inr result, w1) \<Rightarrow> (Inr result, w1)
         | (Inl error, w1) \<Rightarrow>
             if err_status error = Some 401 then (Inl (new_Error ''Invalid OpenAI API key''), w1)
             else if err_status error = Some 429 then
               attempt_loop client opts (attempt + 1) (Some error)
                 (emit [Warn_rate_limited (retryDelay_of opts * attempt * 2) attempt (maxRetries_of opts),
                        Sleep (retryDelay_of opts * attempt * 2)] w1)
             else if attempt < maxRetries_of opts then
               attempt_loop client opts (attempt + 1) (Some error)
                 (emit [Warn_attempt_failed attempt (err_message error) (retryDelay_of opts),
                        Sleep (retryDelay_of opts * attempt)] w1)
             else attempt_loop client opts (attempt + 1) (Some error) w1)
      else (Inl (exhausted (maxRetries_of opts) lastError), w))"
  by pat_completeness auto
termination
  by (relation "measure (\<lambda>(client, opts, attempt, lastError, w). Suc (maxRetries_of opts) - attempt)") auto

declare attempt_loop.simps [simp del]

definition generateChunk :: "'s client \<Rightarrow> chunk_options \<Rightarrow> 's world \<Rightarrow> (js_error + chunk_result) \<times> 's world" where
  "generateChunk client opts w = attempt_loop client opts 1 None w"

record section_options =
  so_sectionId :: string
  so_numChunks :: nat
  so_model :: string
  so_temperature :: rat
  so_branding :: branding
  so_onProgress :: bool
  so_maxRetries :: "nat option"
  so_retryDelay :: "nat option"

record section_result =
  res_chunks :: "string list"
  res_totalUsage :: usage

definition plus_usage :: "usage \<Rightarrow> usage \<Rightarrow> usage" where
  "plus_usage a b =
     \<lparr>promptTokens = promptTokens a + promptTokens b,
      completionTokens = completionTokens a + completionTokens b,
      totalTokens = totalTokens a + totalTokens b\<rparr>"

definition zero_usage :: usage where
  "zero_usage = \<lparr>promptTokens = 0, completionTokens = 0, totalTokens = 0\<rparr>"

definition section_chunk_options :: "section_options \<Rightarrow> section_entry \<Rightarrow> nat \<Rightarrow> chunk_options" where
  "section_chunk_options options section i =
     \<lparr>opt_model = so_model options, opt_temperature = so_temperature options,
      opt_maxTokens = None, opt_section = section, opt_chunkIndex = i,
      opt_totalChunks = so_numChunks options, opt_branding = so_branding options,
      opt_maxRetries = so_maxRetries options, opt_retryDelay = so_retryDelay options\<rparr>"

text \<open>
  The loop \<open>for (let i = 0; i < numChunks; i++)\<close> of \<open>generateSection\<close>, entered at
  \<open>i\<close> with the chunks and the usage gathered so far. \<open>so_onProgress\<close> tells whether a
  callback was passed; calling it is the event \<open>OnProgress\<close>.
\<close>

function section_loop ::
  "'s client \<Rightarrow> section_options \<Rightarrow> section_entry \<Rightarrow> nat \<Rightarrow> string list \<Rightarrow> usage \<Rightarrow> 's world
   \<Rightarrow> (js_error + section_result) \<times> 's world" where
  "section_loop client options section i chunks totalUsage w =
     (if i < so_numChunks options then
        (case generateChunk client (section_chunk_options options section i) w of
           (Inl error, w1) \<Rightarrow> (Inl error, w1)
         | (Inr r, w1) \<Rightarrow>
             section_loop client options section (i + 1) (chunks @ [chunk_content r])
               (plus_usage totalUsage (chunk_usage r))
               (if so_onProgress options
                then emit [OnProgress i (chunk_content r) (chunk_usage r)] w1 else w1))
      else (Inr \<lparr>res_chunks = chunks, res_totalUsage = totalUsage\<rparr>, w))"
  by pat_completeness auto
termination
  by (relation "measure (\<lambda>(client, options, section, i, chunks, totalUsage, w). so_numChunks options - i)") auto

declare section_loop.simps [simp del]

definition generateSection :: "'s client \<Rightarrow> section_options \<Rightarrow> 's world \<Rightarrow> (js_error + section_result) \<times> 's world" where
  "generateSection client options w =
     (case getSectionById (so_sectionId options) of
        None \<Rightarrow> (Inl (new_Error (''Unknown section ID: '' @ so_sectionId options)), w)
      | Some section \<Rightarrow> section_loop client options section 0 [] zero_usage w)"

section \<open>Notions used to state the properties of the content generator\<close>

text \<open>The requests sent to the client, counted in a trace.\<close>

definition is_ClientCall :: "event \<Rightarrow> bool" where
  "is_ClientCall e = (case e of ClientCall _ \<Rightarrow> True | _ \<Rightarrow> False)"

definition count_calls :: "event list \<Rightarrow> nat" where
  "count_calls tr = length (filter is_ClientCall tr)"

text \<open>
  What a completion reports: the text of its first choice, empty when the choice, its
  message or its content is missing, and the token counts of its usage, an absent count
  being 0.
\<close>

definition reported_text :: "completion \<Rightarrow> string" where
  "reported_text c =
     (case choices c of
        [] \<Rightarrow> []
      | ch # _ \<Rightarrow>
          (case choice_message ch of
             None \<Rightarrow> []
           | Some m \<Rightarrow> (case msg_content m of None \<Rightarrow> [] | Some t \<Rightarrow> t)))"

definition reported_count :: "nat option \<Rightarrow> nat" where
  "reported_count v = (case v of None \<Rightarrow> 0 | Some n \<Rightarrow> n)"

definition reported_usage :: "completion \<Rightarrow> usage" where
  "reported_usage c =
     (case completion_usage c of
        None \<Rightarrow> \<lparr>promptTokens = 0, completionTokens = 0, totalTokens = 0\<rparr>
      | Some u \<Rightarrow> \<lparr>promptTokens = reported_count (prompt_tokens u),
                    completionTokens = reported_count (completion_tokens u),
                    totalTokens = reported_count (total_tokens u)\<rparr>)"

text \<open>The same of the outcome of a call; a rejected call reports nothing.\<close>

definition reply_text :: "js_error + completion \<Rightarrow> string" where
  "reply_text outcome = (case outcome of Inl _ \<Rightarrow> [] | Inr c \<Rightarrow> reported_text c)"

definition reply_usage :: "js_error + completion \<Rightarrow> usage" where
  "reply_usage outcome =
     (case outcome of
        Inl _ \<Rightarrow> \<lparr>promptTokens = 0, completionTokens = 0, totalTokens = 0\<rparr>
      | Inr c \<Rightarrow> reported_usage c)"

text \<open>A call that resolved with non-empty text.\<close>

definition carries_text :: "js_error + completion \<Rightarrow> bool" where
  "carries_text outcome = (case outcome of Inl _ \<Rightarrow> False | Inr c \<Rightarrow> reported_text c \<noteq> [])"

text \<open>
  A call that failed, but not with status 401: it was rejected with another status or
  with none, or it resolved with empty or missing text.
\<close>

definition failed_call :: "js_error + completion \<Rightarrow> bool" where
  "failed_call outcome =
     (case outcome of Inl e \<Rightarrow> err_status e \<noteq> Some 401 | Inr c \<Rightarrow> reported_text c = [])"

text \<open>
  The message of a failed call: that of the error the client rejected with, or the
  empty-response message for a call that resolved without text.
\<close>

definition failure_message :: "js_error + completion \<Rightarrow> string" where
  "failure_message outcome =
     (case outcome of Inl e \<Rightarrow> err_message e | Inr c \<Rightarrow> ''Empty response from OpenAI API'')"

text \<open>
  What a stub answers to a series of requests sent one after the other, and the state
  it is left in.
\<close>

fun replies :: "'s client \<Rightarrow> request list \<Rightarrow> 's \<Rightarrow> (js_error + completion) list" where
  "replies client [] s = []"
| "replies client (r # rs) s = fst (client s r) # replies client rs (snd (client s r))"

fun state_after :: "'s client \<Rightarrow> request list \<Rightarrow> 's \<Rightarrow> 's" where
  "state_after client [] s = s"
| "state_after client (r # rs) s = state_after client rs (snd (client s r))"

text \<open>The requests of a section, chunk 0 first.\<close>

definition section_requests :: "section_options \<Rightarrow> section_entry \<Rightarrow> request list" where
  "section_requests options section =
     map (\<lambda>i. request_of (section_chunk_options options section i)) [0..<so_numChunks options]"

text \<open>The componentwise sum of a list of usages.\<close>

definition total_usage :: "usage list \<Rightarrow> usage" where
  "total_usage us =
     \<lparr>promptTokens = (\<Sum>u\<leftarrow>us. promptTokens u),
      completionTokens = (\<Sum>u\<leftarrow>us. completionTokens u),
      totalTokens = (\<Sum>u\<leftarrow>us. totalTokens u)\<rparr>"

text \<open>Concrete inputs, those of the repository's tests.\<close>

definition demo_branding :: branding where
  "demo_branding = \<lparr>primaryColor = ''#00FFC8'', secondaryColor = ''#1a1a2e'', footerText = ''Test Brand''\<rparr>"

definition demo_section :: section_entry where
  "demo_section = \<lparr>section_id = ''core_prompts'', label = ''Core Edition Prompts'', defaultChunks = 12\<rparr>"

definition demo_chunk_options :: "nat option \<Rightarrow> chunk_options" where
  "demo_chunk_options maxRetries =
     \<lparr>opt_model = ''gpt-4'', opt_temperature = 7/10, opt_maxTokens = None,
      opt_section = demo_section, opt_chunkIndex = 0, opt_totalChunks = 1,
      opt_branding = demo_branding, opt_maxRetries = maxRetries, opt_retryDelay = None\<rparr>"

definition demo_section_options :: "nat \<Rightarrow> section_options" where
  "demo_section_options n =
     \<lparr>so_sectionId = ''core_prompts'', so_numChunks = n, so_model = ''gpt-4'', so_temperature = 7/10,
      so_branding = demo_branding, so_onProgress = True, so_maxRetries = None, so_retryDelay = None\<rparr>"

text \<open>Stubs whose state counts the calls made so far.\<close>

definition text_completion :: "string option \<Rightarrow> completion" where
  "text_completion t =
     \<lparr>choices = [\<lparr>choice_message = Some \<lparr>msg_content = t\<rparr>\<rparr>],
      completion_usage = Some \<lparr>prompt_tokens = Some 100, completion_tokens = Some 50, total_tokens = Some 150\<rparr>\<rparr>"

definition stub_empty :: "nat client" where
  "stub_empty s r = (Inr (text_completion None), Suc s)"

text \<open>A stub that resolves every call with the empty string for text.\<close>

definition stub_blank :: "nat client" where
  "stub_blank s r = (Inr (text_completion (Some [])), Suc s)"

definition stub_numbered :: "nat client" where
  "stub_numbered s r = (Inr (text_completion (Some (''Content chunk '' @ String_of_nat (Suc s)))), Suc s)"

text \<open>
  A stub whose call number \<open>k\<close> resolves with the text \<open>Content chunk k\<close> and reports
  \<open>100 * k\<close> prompt tokens, 50 completion tokens but none at the second call, and a
  total.
\<close>

definition stub_metered :: "nat client" where
  "stub_metered s r =
     (Inr \<lparr>choices = [\<lparr>choice_message = Some \<lparr>msg_content = Some (''Content chunk '' @ String_of_nat (Suc s))\<rparr>\<rparr>],
           completion_usage = Some \<lparr>prompt_tokens = Some (100 * Suc s),
                                     completion_tokens = (if s = 1 then None else Some 50),
                                     total_tokens = Some (100 * Suc s + (if s = 1 then 0 else 50))\<rparr>\<rparr>,
      Suc s)"

text \<open>A stub whose call number \<open>k\<close> is rejected with status 500 and the message \<open>boom k\<close>.\<close>

definition stub_failing :: "nat client" where
  "stub_failing s r = (Inl \<lparr>err_status = Some 500, err_message = ''boom '' @ String_of_nat (Suc s)\<rparr>, Suc s)"


definition world0 :: "nat world" where
  "world0 = \<lparr>client_state = 0, trace = [], disk = [], objects = initial_store\<rparr>"

section \<open>File system (\<open>fs-extra\<close> and \<open>src/utils/file-system.js\<close>)\<close>

text \<open>
  A path is the list of its components and the disk maps paths to nodes, each path at
  most once; the root always exists. Every operation that can throw returns a sum.
\<close>

definition lookup :: "filesystem \<Rightarrow> path \<Rightarrow> node option" where
  "lookup fs p = (if p = [] then Some Directory else map_of fs p)"

definition path_string :: "path \<Rightarrow> string" where
  "path_string p = concat (map (\<lambda>c. ''/'' @ c) p)"

definition fs_error :: "string \<Rightarrow> path \<Rightarrow> js_error" where
  "fs_error code p = new_Error (code @ '': '' @ path_string p)"

text \<open>
  An error of the file system carries the error code and the path; the wording of the
  messages of Node is not kept.
\<close>

text \<open>
  \<open>fs.ensureDir\<close>: the directory and its missing ancestors are created. A file in the
  place of the directory is \<open>EEXIST\<close>, a file in the place of an ancestor \<open>ENOTDIR\<close>.
\<close>

fun mkdirs :: "path list \<Rightarrow> filesystem \<Rightarrow> js_error + filesystem" where
  "mkdirs [] fs = Inr fs"
| "mkdirs (q # qs) fs =
     (case lookup fs q of
        Some (File _) \<Rightarrow> Inl (fs_error (if qs = [] then ''EEXIST'' else ''ENOTDIR'') q)
      | Some Directory \<Rightarrow> mkdirs qs fs
      | None \<Rightarrow> mkdirs qs (fs @ [(q, Directory)]))"

definition ensureDir :: "path \<Rightarrow> filesystem \<Rightarrow> js_error + filesystem" where
  "ensureDir p fs = mkdirs (prefixes p) fs"

text \<open>\<open>fs.writeFile\<close>: the file is created or replaced; its directory must exist.\<close>

definition fs_writeFile :: "path \<Rightarrow> content \<Rightarrow> filesystem \<Rightarrow> js_error + filesystem" where
  "fs_writeFile p c fs =
     (case lookup fs p of
        Some Directory \<Rightarrow> Inl (fs_error ''EISDIR'' p)
      | _ \<Rightarrow>
          (case lookup fs (butlast p) of
             Some Directory \<Rightarrow> Inr (AList.update p (File c) fs)
           | Some (File _) \<Rightarrow> Inl (fs_error ''ENOTDIR'' p)
           | None \<Rightarrow> Inl (fs_error ''ENOENT'' p)))"

definition fs_readFile :: "filesystem \<Rightarrow> path \<Rightarrow> js_error + content" where
  "fs_readFile fs p =
     (case lookup fs p of
        Some (File c) \<Rightarrow> Inr c
      | Some Directory \<Rightarrow> Inl (fs_error ''EISDIR'' p)
      | None \<Rightarrow> Inl (fs_error ''ENOENT'' p))"

text \<open>
  \<open>fs.readdir\<close>: the names directly inside a directory, here in the order in which the
  entries were created; the order in which Node lists them is that of the file system.
\<close>

definition readdir :: "filesystem \<Rightarrow> path \<Rightarrow> js_error + string list" where
  "readdir fs p =
     (case lookup fs p of
        Some Directory \<Rightarrow> Inr (map (last \<circ> fst) (filter (\<lambda>(q, n). q \<noteq> [] \<and> butlast q = p) fs))
      | Some (File _) \<Rightarrow> Inl (fs_error ''ENOTDIR'' p)
      | None \<Rightarrow> Inl (fs_error ''ENOENT'' p))"

text \<open>\<open>ensureDirectory\<close> and \<open>writeFile\<close> of the utilities, acting on the world.\<close>

definition ensureDirectory :: "path \<Rightarrow> 's world \<Rightarrow> (js_error + unit) \<times> 's world" where
  "ensureDirectory dirPath w =
     (case ensureDir dirPath (disk w) of
        Inl e \<Rightarrow> (Inl e, emit [EnsureDir dirPath] w)
      | Inr fs \<Rightarrow> (Inr (), emit [EnsureDir dirPath] (w\<lparr>disk := fs\<rparr>)))"

definition writeFile :: "path \<Rightarrow> content \<Rightarrow> 's world \<Rightarrow> (js_error + unit) \<times> 's world" where
  "writeFile filePath c w =
     (case ensureDirectory (butlast filePath) w of
        (Inl e, w1) \<Rightarrow> (Inl e, w1)
      | (Inr _, w1) \<Rightarrow>
          (case fs_writeFile filePath c (disk w1) of
             Inl e \<Rightarrow> (Inl e, emit [WriteFile filePath c] w1)
           | Inr fs \<Rightarrow> (Inr (), emit [WriteFile filePath c] (w1\<lparr>disk := fs\<rparr>))))"

section \<open>ZIP packager (\<open>src/generators/zip-packager.js\<close>)\<close>

text \<open>
  \<open>path.extname\<close> of a file name: from the last dot on, and empty when there is no
  dot, when the only dot leads the name, and for \<open>..\<close>.
\<close>

definition extname :: "string \<Rightarrow> string" where
  "extname name =
     (if CHR ''.'' \<notin> set name then []
      else let i = length name - 1 - length (takeWhile (\<lambda>c. c \<noteq> CHR ''.'') (rev name))
           in if i = 0 \<or> name = ''..'' then [] else drop i name)"

text \<open>\<open>path.join\<close> of an archive prefix and a file name.\<close>

definition path_join :: "string \<Rightarrow> string \<Rightarrow> string" where
  "path_join a b = (if a = [] then b else a @ ''/'' @ b)"

text \<open>
  A \<open>JSZip\<close> instance: its file entries in the order of insertion; \<open>zip.file(name, c)\<close>
  replaces the entry of that name or adds one.
\<close>

type_synonym jszip = "(string \<times> content) list"

definition zip_file :: "string \<Rightarrow> content \<Rightarrow> jszip \<Rightarrow> jszip" where
  "zip_file name c z = AList.update name c z"

record zip_options =
  extensions :: "string list option"
  recursive :: bool

text \<open>No path of the disk is longer than this bound.\<close>

definition depth_bound :: "filesystem \<Rightarrow> nat" where
  "depth_bound fs = Suc (Max (insert 0 (length ` fst ` set fs)))"

text \<open>
  \<open>addDirectoryToZip\<close> only reads the disk. The \<open>for\<close> loop over the names is a
  fold that stops changing once a read has failed.
\<close>

function addDirectoryToZip :: "filesystem \<Rightarrow> jszip \<Rightarrow> path \<Rightarrow> string \<Rightarrow> zip_options \<Rightarrow> js_error + jszip" where
  "addDirectoryToZip fs zp dirPath zipPath options =
     (case readdir fs dirPath of
        Inl e \<Rightarrow> Inl e
      | Inr files \<Rightarrow>
          fold (\<lambda>file acc.
                  case acc of
                    Inl e \<Rightarrow> Inl e
                  | Inr z \<Rightarrow>
                      (case lookup fs (dirPath @ [file]) of
                         None \<Rightarrow> Inl (fs_error ''ENOENT'' (dirPath @ [file]))
                       | Some Directory \<Rightarrow>
                           if recursive options
                           then addDirectoryToZip fs z (dirPath @ [file]) (path_join zipPath file) options
                           else Inr z
                       | Some (File c) \<Rightarrow>
                           (case extensions options of
                              None \<Rightarrow> Inr (zip_file (path_join zipPath file) c z)
                            | Some exts \<Rightarrow>
                                if toLowerCase (extname file) \<notin> set exts then Inr z
                                else Inr (zip_file (path_join zipPath file) c z))))
               files (Inr zp))"
  by pat_completeness auto
termination
proof (relation "measure (\<lambda>(fs, zp, dirPath, zipPath, options). depth_bound fs - length dirPath)")
  show "wf (measure (\<lambda>(fs, zp, dirPath, zipPath, options). depth_bound fs - length dirPath))" by simp
next
  fix fs :: filesystem and zp :: jszip and dirPath :: path and zipPath :: string and options :: zip_options
    and files f acc z n
  assume "lookup fs (dirPath @ [f]) = Some n"
  then have "(dirPath @ [f], n) \<in> set fs" by (simp add: lookup_def map_of_SomeD)
  then have "length (dirPath @ [f]) \<in> insert 0 (length ` fst ` set fs)" by force
  then have "length (dirPath @ [f]) \<le> Max (insert 0 (length ` fst ` set fs))"
    by (intro Max_ge) auto
  then have "length (dirPath @ [f]) < depth_bound fs" by (simp add: depth_bound_def)
  then show "((fs, z, dirPath @ [f], path_join zipPath f, options), fs, zp, dirPath, zipPath, options)
       \<in> measure (\<lambda>(fs, zp, dirPath, zipPath, options). depth_bound fs - length dirPath)"
    by simp
qed

declare addDirectoryToZip.simps [simp del]

text \<open>\<open>writeZipToFile\<close>: the archive is generated and written at \<open>outputPath\<close>.\<close>

definition writeZipToFile :: "jszip \<Rightarrow> path \<Rightarrow> 's world \<Rightarrow> (js_error + unit) \<times> 's world" where
  "writeZipToFile zp outputPath w = writeFile outputPath (Archive zp) w"

record section_zip_options =
  sz_sectionId :: string
  sz_sectionDir :: path
  sz_outputDir :: path
  sz_includeSourceFiles :: "bool option"
  sz_includePdfs :: "bool option"

text \<open>A destructuring default \<open>= true\<close>.\<close>

definition or_true :: "bool option \<Rightarrow> bool" where
  "or_true b = (case b of None \<Rightarrow> True | Some v \<Rightarrow> v)"

definition createSectionZip :: "section_zip_options \<Rightarrow> 's world \<Rightarrow> (js_error + path) \<times> 's world" where
  "createSectionZip options w =
     (let exts = (if or_true (sz_includeSourceFiles options) then [''.txt''] else [])
                 @ (if or_true (sz_includePdfs options) then [''.pdf''] else []);
          w1 = emit [ReadDir (sz_sectionDir options)] w
      in case addDirectoryToZip (disk w) [] (sz_sectionDir options) (sz_sectionId options)
                \<lparr>extensions = (if 0 < length exts then Some exts else None), recursive = False\<rparr> of
           Inl e \<Rightarrow> (Inl e, w1)
         | Inr zp \<Rightarrow>
             (let outputPath = sz_outputDir options @ [sz_sectionId options @ ''.zip'']
              in case writeZipToFile zp outputPath w1 of
                   (Inl e, w2) \<Rightarrow> (Inl e, w2)
                 | (Inr _, w2) \<Rightarrow> (Inr outputPath, w2)))"

text \<open>The loop of \<open>createMasterZip\<close> over the section archives.\<close>

fun add_section_zips :: "path list \<Rightarrow> jszip \<Rightarrow> 's world \<Rightarrow> (js_error + jszip) \<times> 's world" where
  "add_section_zips [] zp w = (Inr zp, w)"
| "add_section_zips (zipPath # rest) zp w =
     (case fs_readFile (disk w) zipPath of
        Inl e \<Rightarrow> (Inl e, emit [ReadFile zipPath] w)
      | Inr c \<Rightarrow> add_section_zips rest (zip_file (last zipPath) c zp) (emit [ReadFile zipPath] w))"

text \<open>
  \<open>readmePath && (await fs.pathExists(readmePath))\<close> and the read that follows, for the
  README and for the licence.
\<close>

definition add_optional :: "path option \<Rightarrow> string \<Rightarrow> jszip \<Rightarrow> 's world \<Rightarrow> (js_error + jszip) \<times> 's world" where
  "add_optional p name zp w =
     (case p of
        None \<Rightarrow> (Inr zp, w)
      | Some q \<Rightarrow>
          (case lookup (disk w) q of
             None \<Rightarrow> (Inr zp, w)
           | Some _ \<Rightarrow>
               (case fs_readFile (disk w) q of
                  Inl e \<Rightarrow> (Inl e, emit [ReadFile q] w)
                | Inr c \<Rightarrow> (Inr (zip_file name c zp), emit [ReadFile q] w))))"

definition createMasterZip ::
  "path list \<Rightarrow> path \<Rightarrow> path option \<Rightarrow> path option \<Rightarrow> 's world \<Rightarrow> (js_error + path) \<times> 's world" where
  "createMasterZip sectionZipPaths outputPath readmePath licensePath w =
     (case add_section_zips sectionZipPaths [] w of
        (Inl e, w1) \<Rightarrow> (Inl e, w1)
      | (Inr z1, w1) \<Rightarrow>
          (case add_optional readmePath ''README.md'' z1 w1 of
             (Inl e, w2) \<Rightarrow> (Inl e, w2)
           | (Inr z2, w2) \<Rightarrow>
               (case add_optional licensePath ''LICENSE.txt'' z2 w2 of
                  (Inl e, w3) \<Rightarrow> (Inl e, w3)
                | (Inr z3, w3) \<Rightarrow>
                    (case writeZipToFile z3 outputPath w3 of
                       (Inl e, w4) \<Rightarrow> (Inl e, w4)
                     | (Inr _, w4) \<Rightarrow> (Inr outputPath, w4)))))"

section \<open>PDF generator (\<open>src/generators/pdf-generator.js\<close>)\<close>

text \<open>
  Rendering is done by a headless browser. It is a parameter: for a text it either
  succeeds, and the PDF of that text is written, or throws the given error.
\<close>

type_synonym renderer = "string \<Rightarrow> js_error option"

text \<open>\<open>String(chunkNumber).padStart(2, '0')\<close>.\<close>

definition padStart2 :: "string \<Rightarrow> string" where
  "padStart2 s = replicate (2 - length s) CHR ''0'' @ s"

text \<open>The loop of \<open>generateSectionPdfs\<close>, entered at index \<open>i\<close> with the rest of \<open>contents\<close>.\<close>

fun render_loop ::
  "renderer \<Rightarrow> path \<Rightarrow> string \<Rightarrow> nat \<Rightarrow> string list \<Rightarrow> path list \<Rightarrow> 's world \<Rightarrow> (js_error + path list) \<times> 's world" where
  "render_loop render outputDir sectionId i [] pdfPaths w = (Inr pdfPaths, w)"
| "render_loop render outputDir sectionId i (c # rest) pdfPaths w =
     (let outputPath = outputDir @ [sectionId @ ''_chunk_'' @ padStart2 (String_of_nat (i + 1)) @ ''.pdf''];
          w1 = emit [RenderPdf outputPath] w
      in case render c of
           Some e \<Rightarrow> (Inl e, w1)
         | None \<Rightarrow>
             (case fs_writeFile outputPath (Pdf c) (disk w1) of
                Inl e \<Rightarrow> (Inl e, w1)
              | Inr fs \<Rightarrow>
                  render_loop render outputDir sectionId (i + 1) rest (pdfPaths @ [outputPath])
                    (emit [WriteFile outputPath (Pdf c)] (w1\<lparr>disk := fs\<rparr>))))"

definition generateSectionPdfs ::
  "renderer \<Rightarrow> string list \<Rightarrow> path \<Rightarrow> string \<Rightarrow> 's world \<Rightarrow> (js_error + path list) \<times> 's world" where
  "generateSectionPdfs render contents outputDir sectionId w =
     render_loop render outputDir sectionId 0 contents [] w"

section \<open>The command line tool (\<open>src/index.js\<close>)\<close>

text \<open>The merged configuration, as far as the build reads it.\<close>

record build_config =
  cfg_rootFolder :: string
  cfg_outputDir :: "path option"
  cfg_model :: string
  cfg_temperature :: rat
  cfg_maxRetries :: "nat option"
  cfg_retryDelay :: "nat option"
  cfg_generatePDFs :: bool
  cfg_branding :: branding
  cfg_selectedSections :: "string list option"
  cfg_chunkOverrides :: "(string \<times> nat) list"

record processed_section =
  ps_sectionId :: string
  ps_sectionLabel :: string
  ps_numChunks :: nat
  ps_txtPath :: path
  ps_pdfPath :: "path option"
  ps_zipPath :: path

text \<open>\<open>contents.join(sep)\<close>.\<close>

fun join :: "string \<Rightarrow> string list \<Rightarrow> string" where
  "join sep [] = []"
| "join sep [x] = x"
| "join sep (x # y # ys) = x @ sep @ join sep (y # ys)"

definition separator :: string where
  "separator = [CHR 0x0A, CHR 0x0A] @ ''---'' @ [CHR 0x0A, CHR 0x0A]"

definition build_chunk_options :: "build_config \<Rightarrow> section_entry \<Rightarrow> nat \<Rightarrow> nat \<Rightarrow> chunk_options" where
  "build_chunk_options config section numChunks i =
     \<lparr>opt_model = cfg_model config, opt_temperature = cfg_temperature config,
      opt_maxTokens = None, opt_section = section, opt_chunkIndex = i,
      opt_totalChunks = numChunks, opt_branding = cfg_branding config,
      opt_maxRetries = Some (case cfg_maxRetries config of None \<Rightarrow> 3 | Some n \<Rightarrow> n),
      opt_retryDelay = Some (case cfg_retryDelay config of None \<Rightarrow> 1000 | Some n \<Rightarrow> n)\<rparr>"

definition usage_to_arg :: "usage \<Rightarrow> usage_arg" where
  "usage_to_arg u =
     \<lparr>arg_promptTokens = Some (promptTokens u), arg_completionTokens = Some (completionTokens u),
      arg_totalTokens = Some (totalTokens u)\<rparr>"

text \<open>
  The chunk loop of \<open>processSection\<close>, entered at \<open>i\<close> with the texts collected so
  far and the cost tracker. The texts stay in memory.
\<close>

function chunk_loop ::
  "'s client \<Rightarrow> build_config \<Rightarrow> section_entry \<Rightarrow> nat \<Rightarrow> nat \<Rightarrow> string list \<Rightarrow> tracker \<Rightarrow> 's world
   \<Rightarrow> (js_error + string list) \<times> tracker \<times> 's world" where
  "chunk_loop client config section numChunks i contents t w =
     (if i < numChunks then
        (case generateChunk client (build_chunk_options config section numChunks i) w of
           (Inl e, w1) \<Rightarrow> (Inl e, t, w1)
         | (Inr r, w1) \<Rightarrow>
             (let (t', st') = addUsage (usage_to_arg (chunk_usage r)) (t, objects w1)
              in chunk_loop client config section numChunks (i + 1) (contents @ [chunk_content r]) t'
                   (emit [ProgressIncrement (label section) (i + 1) numChunks] (w1\<lparr>objects := st'\<rparr>))))
      else (Inr contents, t, w))"
  by pat_completeness auto
termination
  by (relation "measure (\<lambda>(client, config, section, numChunks, i, contents, t, w). numChunks - i)") auto

declare chunk_loop.simps [simp del]

definition processSection ::
  "'s client \<Rightarrow> renderer \<Rightarrow> build_config \<Rightarrow> section_entry \<Rightarrow> nat \<Rightarrow> path \<Rightarrow> tracker \<Rightarrow> 's world
   \<Rightarrow> (js_error + processed_section) \<times> tracker \<times> 's world" where
  "processSection client render config section numChunks outputDir t w =
     (let sectionDir = outputDir @ [section_id section] in
      case ensureDirectory sectionDir w of
        (Inl e, w1) \<Rightarrow> (Inl e, t, w1)
      | (Inr _, w1) \<Rightarrow>
          (case chunk_loop client config section numChunks 0 [] t w1 of
             (Inl e, t2, w2) \<Rightarrow> (Inl e, t2, w2)
           | (Inr contents, t2, w2) \<Rightarrow>
               (let combinedContent = join separator contents;
                    combinedTxtPath = sectionDir @ [section_id section @ ''.txt'']
                in case writeFile combinedTxtPath (Text combinedContent) w2 of
                     (Inl e, w3) \<Rightarrow> (Inl e, t2, w3)
                   | (Inr _, w3) \<Rightarrow>
                       (case (if cfg_generatePDFs config
                              then generateSectionPdfs render [combinedContent] sectionDir (section_id section) w3
                              else (Inr [], w3)) of
                          (Inl e, w4) \<Rightarrow> (Inl e, t2, w4)
                        | (Inr pdfPaths, w4) \<Rightarrow>
                            (case createSectionZip
                                    \<lparr>sz_sectionId = section_id section, sz_sectionDir = sectionDir,
                                     sz_outputDir = outputDir, sz_includeSourceFiles = Some False,
                                     sz_includePdfs = Some (cfg_generatePDFs config)\<rparr> w4 of
                               (Inl e, w5) \<Rightarrow> (Inl e, t2, w5)
                             | (Inr zipPath, w5) \<Rightarrow>
                                 (Inr \<lparr>ps_sectionId = section_id section, ps_sectionLabel = label section,
                                       ps_numChunks = numChunks, ps_txtPath = combinedTxtPath,
                                       ps_pdfPath = (case pdfPaths of [] \<Rightarrow> None | p # _ \<Rightarrow> Some p),
                                       ps_zipPath = zipPath\<rparr>, t2, w5))))))"

text \<open>
  The work list of \<open>build\<close>: the selected ids that are in the catalogue, each with
  \<open>chunkOverrides[sectionId] || section.defaultChunks\<close>. An id that is not in the
  catalogue is passed over.
\<close>

fun section_work :: "string list \<Rightarrow> (string \<times> nat) list \<Rightarrow> (section_entry \<times> nat) list" where
  "section_work [] chunkOverrides = []"
| "section_work (sectionId # rest) chunkOverrides =
     (case getSectionById sectionId of
        None \<Rightarrow> section_work rest chunkOverrides
      | Some section \<Rightarrow>
          (section, (case map_of chunkOverrides sectionId of
                       None \<Rightarrow> defaultChunks section
                     | Some n \<Rightarrow> if n = 0 then defaultChunks section else n))
          # section_work rest chunkOverrides)"

text \<open>The loop of \<open>build\<close> over the work list, with its \<open>catch\<close> clause.\<close>

fun sections_loop ::
  "'s client \<Rightarrow> renderer \<Rightarrow> build_config \<Rightarrow> path \<Rightarrow> (section_entry \<times> nat) list \<Rightarrow> processed_section list
   \<Rightarrow> tracker \<Rightarrow> 's world \<Rightarrow> (js_error + processed_section list) \<times> tracker \<times> 's world" where
  "sections_loop client render config outputDir [] results t w = (Inr results, t, w)"
| "sections_loop client render config outputDir ((section, numChunks) # rest) results t w =
     (case processSection client render config section numChunks outputDir t w of
        (Inl error, t1, w1) \<Rightarrow>
          (Inl error, t1,
           emit [ProgressStop,
                 LogError (''Failed to process section '' @ [CHR 0x22] @ label section @ [CHR 0x22]
                           @ '': '' @ err_message error)] w1)
      | (Inr result, t1, w1) \<Rightarrow>
          sections_loop client render config outputDir rest (results @ [result]) t1 w1)"

record build_result =
  br_outputDir :: path
  br_masterZipPath :: path
  br_sections :: "processed_section list"
  br_totalSections :: nat
  br_totalChunks :: nat
  br_cost :: ref

text \<open>
  \<open>build(config, apiKey)\<close> on the merged configuration, run in the directory \<open>cwd\<close>.
  The size of the output tree and the duration, two statistics read off the disk and
  the clock at the end, are left out of the result.
\<close>

definition build ::
  "'s client \<Rightarrow> renderer \<Rightarrow> build_config \<Rightarrow> string \<Rightarrow> path \<Rightarrow> 's world \<Rightarrow> (js_error + build_result) \<times> 's world" where
  "build client render config apiKey cwd w =
     (if apiKey = [] then
        (Inl (new_Error ''OpenAI API key is required. Set OPENAI_API_KEY environment variable.''), w)
      else
        (let outputDir = cwd @ (case cfg_outputDir config of None \<Rightarrow> [''dist''] | Some d \<Rightarrow> d)
                         @ [cfg_rootFolder config]
         in case ensureDirectory outputDir w of
              (Inl e, w1) \<Rightarrow> (Inl e, w1)
            | (Inr _, w1) \<Rightarrow>
                (let selectedSections = (case cfg_selectedSections config of
                                           None \<Rightarrow> map section_id SECTIONS
                                         | Some ids \<Rightarrow> ids);
                     sectionWork = section_work selectedSections (cfg_chunkOverrides config);
                     totalChunks = sum_list (map snd sectionWork);
                     (t, st) = createCostTracker (cfg_model config) (objects w1);
                     w2 = emit [ProgressStart totalChunks] (w1\<lparr>objects := st\<rparr>)
                 in case sections_loop client render config outputDir sectionWork [] t w2 of
                      (Inl e, t3, w3) \<Rightarrow> (Inl e, w3)
                    | (Inr results, t3, w3) \<Rightarrow>
                        (let masterZipPath = outputDir @ [cfg_rootFolder config @ ''_complete.zip'']
                         in case createMasterZip (map ps_zipPath results) masterZipPath None None
                                   (emit [ProgressStop] w3) of
                              (Inl e, w5) \<Rightarrow> (Inl e, w5)
                            | (Inr _, w5) \<Rightarrow>
                                (let (cost, st6) = getSummary t3 (objects w5)
                                 in (Inr \<lparr>br_outputDir = outputDir, br_masterZipPath = masterZipPath,
                                          br_sections = results, br_totalSections = length results,
                                          br_totalChunks = totalChunks, br_cost = cost\<rparr>,
                                     w5\<lparr>objects := st6\<rparr>))))))"

text \<open>Concrete inputs for a run from end to end.\<close>

definition demo_config :: "string list \<Rightarrow> build_config" where
  "demo_config ids =
     \<lparr>cfg_rootFolder = ''NeonPromptEngine'', cfg_outputDir = None, cfg_model = ''gpt-4'',
      cfg_temperature = 7/10, cfg_maxRetries = None, cfg_retryDelay = None,
      cfg_generatePDFs = False, cfg_branding = demo_branding,
      cfg_selectedSections = Some ids, cfg_chunkOverrides = [(''branding'', 2)]\<rparr>"

definition stub_ab :: "nat client" where
  "stub_ab s r = (Inr (text_completion (Some (if s = 0 then ''A'' else ''B''))), Suc s)"

definition no_renderer :: renderer where
  "no_renderer c = Some (new_Error ''no browser'')"

text \<open>A section directory that holds the combined text and nothing else.\<close>

definition demo_disk :: filesystem where
  "demo_disk =
     [([''out''], Directory), ([''out'', ''branding''], Directory),
      ([''out'', ''branding'', ''branding.txt''], File (Text ''A''))]"

text \<open>The ids of a selection that are in the catalogue.\<close>

definition known_ids :: "string list \<Rightarrow> string list" where
  "known_ids ids = filter (\<lambda>i. getSectionById i \<noteq> None) ids"


subsection \<open>Notions used to state the properties of the build\<close>

text \<open>The error \<open>generateChunk\<close> throws on status 401.\<close>

definition invalid_key :: js_error where
  "invalid_key = new_Error ''Invalid OpenAI API key''"

text \<open>
  Between two worlds no request was sent, or exactly one was and the result is the
  error for a rejected credential.
\<close>

definition at_most_one_call :: "'s world \<Rightarrow> js_error + 'a \<Rightarrow> 's world \<Rightarrow> bool" where
  "at_most_one_call w r w' =
     (count_calls (trace w') = count_calls (trace w)
      \<or> count_calls (trace w') = count_calls (trace w) + 1 \<and> r = Inl invalid_key)"











section \<open>Properties of the cost calculator\<close>


lemma table_output_ge_input: "\<forall>(k, p) \<in> set MODEL_PRICING. price_input p \<le> price_output p"
  by (simp add: MODEL_PRICING_def)

lemma prefix_loop_Default:
  "(prefix_loop m ks = Default) = (\<forall>k \<in> set ks. \<not> key_matches m k)"
  by (induction ks) (auto simp: key_matches_def)

lemma prefix_loop_first:
  "\<exists>k \<in> set ks. key_matches m k \<Longrightarrow>
   \<exists>i < length ks. prefix_loop m ks = Entry (ks ! i) \<and> key_matches m (ks ! i) \<and> (\<forall>j < i. \<not> key_matches m (ks ! j))"
proof (induction ks)
  case Nil
  then show ?case by simp
next
  case (Cons k ks)
  show ?case
  proof (cases "key_matches m k")
    case True
    then have "prefix_loop m (k # ks) = Entry ((k # ks) ! 0) \<and> key_matches m ((k # ks) ! 0) \<and> (\<forall>j < 0. \<not> key_matches m ((k # ks) ! j))"
      by (simp add: key_matches_def)
    then show ?thesis by blast
  next
    case False
    with Cons.prems have "\<exists>k \<in> set ks. key_matches m k" by auto
    from Cons.IH [OF this] obtain i where i: "i < length ks" "prefix_loop m ks = Entry (ks ! i)"
      "key_matches m (ks ! i)" "\<forall>j < i. \<not> key_matches m (ks ! j)" by blast
    have "\<forall>j < Suc i. \<not> key_matches m ((k # ks) ! j)"
      using False i(4) by (auto simp: less_Suc_eq_0_disj)
    with i False have "Suc i < length (k # ks) \<and> prefix_loop m (k # ks) = Entry ((k # ks) ! Suc i) \<and> key_matches m ((k # ks) ! Suc i) \<and> (\<forall>j < Suc i. \<not> key_matches m ((k # ks) ! j))"
      by (simp add: key_matches_def)
    then show ?thesis by blast
  qed
qed

lemma prefix_loop_range: "prefix_loop m ks = Default \<or> (\<exists>k \<in> set ks. prefix_loop m ks = Entry k)"
  by (induction ks) auto

lemma pricing_at_initial_Entry:
  "pricing_at initial_store (Entry k) = map_of MODEL_PRICING k"
  by (cases "map_of MODEL_PRICING k") (simp_all add: pricing_at_def initial_store_def)

lemma pricing_at_initial_Default:
  "pricing_at initial_store Default = Some DEFAULT_PRICING"
  by (simp add: pricing_at_def initial_store_def)

lemma getModelPricing_range:
  "model \<notin> set Object_prototype_keys \<Longrightarrow>
   getModelPricing model = Default \<or> (\<exists>k \<in> set (map fst MODEL_PRICING). getModelPricing model = Entry k)"
  using prefix_loop_range [of "toLowerCase model" "map fst MODEL_PRICING"]
  by (auto simp: getModelPricing_def)

lemma initial_pricing_valid:
  assumes "model \<notin> set Object_prototype_keys"
  shows "\<exists>p. pricing_at initial_store (getModelPricing model) = Some p \<and> price_input p \<le> price_output p"
proof -
  from getModelPricing_range [OF assms] show ?thesis
  proof
    assume "getModelPricing model = Default"
    then show ?thesis by (simp add: pricing_at_initial_Default DEFAULT_PRICING_def)
  next
    assume "\<exists>k \<in> set (map fst MODEL_PRICING). getModelPricing model = Entry k"
    then obtain k where k: "k \<in> set (map fst MODEL_PRICING)" "getModelPricing model = Entry k" by blast
    then obtain p where p: "map_of MODEL_PRICING k = Some p"
      by (metis map_of_eq_None_iff not_Some_eq set_map)
    then have "(k, p) \<in> set MODEL_PRICING" by (rule map_of_SomeD)
    with table_output_ge_input have "price_input p \<le> price_output p" by blast
    with k p show ?thesis by (simp add: pricing_at_initial_Entry)
  qed
qed

lemma getModelPricing_not_Fresh: "getModelPricing model \<noteq> Fresh n"
  using prefix_loop_range [of "toLowerCase model" "map fst MODEL_PRICING"]
  by (auto simp: getModelPricing_def)



lemma pricing_at_alloc: "pricing_at (snd (alloc v st)) (getModelPricing model) = pricing_at st (getModelPricing model)"
  using getModelPricing_not_Fresh [of model "next_addr st"]
  by (simp add: pricing_at_def alloc_def)

lemma addUsage_step:
  assumes "usage_at st (trk_totalUsage t) = Some tu"
  shows "addUsage u (t, st) =
           (t\<lparr>trk_totalCost := calculateCost (mutate (trk_totalUsage t) (UsageObj (add_usage tu u)) st) (add_usage tu u) (trk_model t)\<rparr>,
            mutate (trk_totalUsage t) (UsageObj (add_usage tu u)) st)"
  using assms by (simp add: addUsage_def add_usage_def Let_def)







lemma tracker_wf_create: "tracker_wf (createCostTracker model st0)"
  by (simp add: tracker_wf_def createCostTracker_def alloc_def usage_at_def)

lemma tracker_wf_addUsage: "tracker_wf ts \<Longrightarrow> tracker_wf (addUsage u ts)"
  by (cases ts) (auto simp: tracker_wf_def addUsage_def Let_def mutate_def usage_at_def)

lemma tracker_wf_step: "tracker_wf ts \<Longrightarrow> tracker_wf (snd (step c ts))"
proof (cases c)
  case (AddUsage u)
  assume "tracker_wf ts" then show ?thesis using AddUsage tracker_wf_addUsage by simp
next
  case GetTotalCost
  assume "tracker_wf ts" then show ?thesis using GetTotalCost by (cases ts) simp
next
  case GetTotalUsage
  assume "tracker_wf ts" then show ?thesis using GetTotalUsage
    by (cases ts) (auto simp: tracker_wf_def getTotalUsage_def alloc_def usage_at_def split: prod.splits)
next
  case GetSummary
  assume "tracker_wf ts" then show ?thesis using GetSummary
    by (cases ts) (auto simp: tracker_wf_def getSummary_def alloc_def usage_at_def Let_def split: prod.splits)
qed

lemma tracker_wf_exec: "tracker_wf ts \<Longrightarrow> tracker_wf (exec cs ts)"
  by (induction cs arbitrary: ts) (simp_all add: tracker_wf_step)

lemma agree_usage_at: "agree D st st' \<Longrightarrow> r \<notin> Fresh ` D \<Longrightarrow> usage_at st r = usage_at st' r"
  by (simp add: agree_def usage_at_def)

lemma agree_pricing_at:
  "agree D st st' \<Longrightarrow> pricing_at st (getModelPricing m) = pricing_at st' (getModelPricing m)"
  using getModelPricing_not_Fresh [of m] by (auto simp: agree_def pricing_at_def image_iff)

lemma agree_calculateCost:
  "agree D st st' \<Longrightarrow> calculateCost st u m = calculateCost st' u m"
  by (simp add: calculateCost_def agree_pricing_at)

lemma agree_mutate: "agree D st st' \<Longrightarrow> agree D (mutate r v st) (mutate r v st')"
  by (simp add: agree_def mutate_def)

lemma agree_alloc:
  "agree D st st' \<Longrightarrow> agree D (snd (alloc v st)) (snd (alloc v st')) \<and> fst (alloc v st) = fst (alloc v st')"
  by (simp add: agree_def alloc_def)

lemma agree_addUsage:
  assumes "agree D st st'" "trk_totalUsage t \<notin> Fresh ` D"
  shows "fst (addUsage u (t, st)) = fst (addUsage u (t, st'))"
    and "agree D (snd (addUsage u (t, st))) (snd (addUsage u (t, st')))"
proof -
  have eq: "usage_at st (trk_totalUsage t) = usage_at st' (trk_totalUsage t)"
    using assms by (rule agree_usage_at)
  show "fst (addUsage u (t, st)) = fst (addUsage u (t, st'))"
  proof (cases "usage_at st (trk_totalUsage t)")
    case None
    with eq show ?thesis by (simp add: addUsage_def)
  next
    case (Some tu)
    with eq have s': "usage_at st' (trk_totalUsage t) = Some tu" by simp
    show ?thesis
      unfolding addUsage_step [OF Some] addUsage_step [OF s']
      using agree_calculateCost [OF agree_mutate [OF assms(1)]] by simp
  qed
  show "agree D (snd (addUsage u (t, st))) (snd (addUsage u (t, st')))"
  proof (cases "usage_at st (trk_totalUsage t)")
    case None
    with eq assms(1) show ?thesis by (simp add: addUsage_def)
  next
    case (Some tu)
    with eq have s': "usage_at st' (trk_totalUsage t) = Some tu" by simp
    show ?thesis
      unfolding addUsage_step [OF Some] addUsage_step [OF s']
      using agree_mutate [OF assms(1)] by simp
  qed
qed

lemma trk_totalUsage_addUsage: "trk_totalUsage (fst (addUsage u (t, st))) = trk_totalUsage t"
  by (simp add: addUsage_def Let_def split: option.splits)

lemma next_addr_addUsage: "next_addr (snd (addUsage u (t, st))) = next_addr st"
  by (simp add: addUsage_def Let_def mutate_def split: option.splits)

lemma heap_alloc_new: "heap (snd (alloc v st)) (fst (alloc v st)) = Some v"
  by (simp add: alloc_def)

lemma alloc_fresh_notin: "\<forall>n \<in> D. n < next_addr st \<Longrightarrow> fst (alloc v st) \<notin> Fresh ` D"
  by (auto simp: alloc_def)

lemma next_addr_alloc: "next_addr (snd (alloc v st)) = Suc (next_addr st)"
  by (simp add: alloc_def)

lemma step_agree:
  assumes a: "agree D st st'" and o: "owned D (t, st)" and w: "tracker_wf (t, st)"
  shows "fst (step c (t, st)) = fst (step c (t, st'))
       \<and> fst (snd (step c (t, st))) = fst (snd (step c (t, st')))
       \<and> agree D (snd (snd (step c (t, st)))) (snd (snd (step c (t, st'))))
       \<and> owned D (snd (step c (t, st)))"
proof -
  from o have t: "trk_totalUsage t \<notin> Fresh ` D" and d: "\<forall>n \<in> D. n < next_addr st"
    by (simp_all add: owned_def)
  have eq: "usage_at st (trk_totalUsage t) = usage_at st' (trk_totalUsage t)"
    using a t by (rule agree_usage_at)
  have na: "next_addr st = next_addr st'" using a by (simp add: agree_def)
  from w obtain tu where Some: "usage_at st (trk_totalUsage t) = Some tu"
    by (auto simp: tracker_wf_def)
  with eq have s': "usage_at st' (trk_totalUsage t) = Some tu" by simp
  show ?thesis
  proof (cases c)
    case (AddUsage u)
    have "owned D (addUsage u (t, st))"
      using t d trk_totalUsage_addUsage [of u t st] next_addr_addUsage [of u t st]
      by (cases "addUsage u (t, st)") (simp add: owned_def)
    with AddUsage show ?thesis
      using agree_addUsage [OF a t, of u] by simp
  next
    case GetTotalCost
    then show ?thesis using a o by simp
  next
    case GetTotalUsage
    show ?thesis
      using GetTotalUsage Some s' t d a na
      by (auto simp: getTotalUsage_def split_beta owned_def alloc_def usage_at_def agree_def
          image_iff less_Suc_eq)
  next
    case GetSummary
    show ?thesis
    proof -
      have p: "pricing_at st (getModelPricing (trk_model t)) = pricing_at st' (getModelPricing (trk_model t))"
        using a by (rule agree_pricing_at)
      have nf: "\<And>n. getModelPricing (trk_model t) \<noteq> Fresh n" by (rule getModelPricing_not_Fresh)
      show ?thesis
        using GetSummary Some s' t d a p nf na
        by (auto simp: getSummary_def Let_def split_beta owned_def alloc_def read_summary_def
            summary_at_def usage_at_def breakdown_at_def pricing_at_def agree_def image_iff less_Suc_eq)
    qed
  qed
qed

lemma run_agree:
  "agree D st st' \<Longrightarrow> owned D (t, st) \<Longrightarrow> tracker_wf (t, st) \<Longrightarrow> run cs (t, st) = run cs (t, st')"
proof (induction cs arbitrary: t st st')
  case Nil
  then show ?case by simp
next
  case (Cons c cs)
  from step_agree [OF Cons.prems, of c]
  have r: "fst (step c (t, st)) = fst (step c (t, st'))"
    and tt: "fst (snd (step c (t, st))) = fst (snd (step c (t, st')))"
    and ag: "agree D (snd (snd (step c (t, st)))) (snd (snd (step c (t, st'))))"
    and ow: "owned D (snd (step c (t, st)))" by simp_all
  obtain t1 st1 where s1: "snd (step c (t, st)) = (t1, st1)" by (cases "snd (step c (t, st))")
  obtain t2 st2 where s2: "snd (step c (t, st')) = (t2, st2)" by (cases "snd (step c (t, st'))")
  from tt s1 s2 have "t2 = t1" by simp
  moreover have "tracker_wf (t1, st1)" using tracker_wf_step [OF Cons.prems(3), of c] s1 by simp
  ultimately show ?case using Cons.IH [of st1 st2 t1] ag ow s1 s2 r by simp
qed

lemma agree_refl: "agree D st st"
  by (simp add: agree_def)

lemma agree_mutate_in: "agree D st st' \<Longrightarrow> r \<in> Fresh ` D \<Longrightarrow> agree D (mutate r v st) st'"
  by (auto simp: agree_def mutate_def)

lemma agree_mutate_all:
  "agree D st st' \<Longrightarrow> \<forall>(r, v) \<in> set ms. r \<in> Fresh ` D \<Longrightarrow> agree D (mutate_all ms st) st'"
proof (induction ms arbitrary: st)
  case Nil
  then show ?case by (simp add: mutate_all_def)
next
  case (Cons m ms)
  obtain r v where m: "m = (r, v)" by (cases m)
  with Cons.prems have "agree D (mutate r v st) st'" by (simp add: agree_mutate_in)
  with Cons.IH [of "mutate r v st"] Cons.prems(2) m show ?case
    by (simp add: mutate_all_def)
qed

lemma agree_sym: "agree D st st' \<Longrightarrow> agree D st' st"
  by (simp add: agree_def)

lemma run_mutate_all:
  assumes "tracker_wf (t, st1)" "owned D (t, st1)" "\<forall>(r, v) \<in> set ms. r \<in> Fresh ` D"
  shows "run cs (t, mutate_all ms st1) = run cs (t, st1)"
proof -
  have "agree D st1 (mutate_all ms st1)"
    using agree_mutate_all [OF agree_refl assms(3)] by (rule agree_sym)
  from run_agree [OF this assms(2) assms(1)] show ?thesis by simp
qed

lemma getTotalUsage_fresh:
  assumes "tracker_wf (t, st)"
  shows "\<exists>tu. getTotalUsage t st = alloc (UsageObj tu) st"
  using assms by (auto simp: tracker_wf_def getTotalUsage_def)

lemma tracker_wf_alloc:
  assumes "tracker_wf (t, st)"
  shows "tracker_wf (t, snd (alloc v st))"
proof -
  from assms obtain n tu where "trk_totalUsage t = Fresh n" "n < next_addr st"
    "usage_at st (Fresh n) = Some tu" by (auto simp: tracker_wf_def)
  then have "trk_totalUsage t = Fresh n \<and> n < next_addr (snd (alloc v st))
      \<and> usage_at (snd (alloc v st)) (Fresh n) = Some tu"
    by (simp add: alloc_def usage_at_def)
  then show ?thesis unfolding tracker_wf_def by blast
qed

lemma owned_alloc1:
  "tracker_wf (t, st) \<Longrightarrow> owned {next_addr st} (t, snd (alloc v st))"
  by (auto simp: tracker_wf_def owned_def alloc_def)

lemmas cost_eval = createCostTracker_def alloc_def getSummary_def getTotalUsage_def addUsage_def
  mutate_def usage_at_def pricing_at_def calculateCost_def getTotalCost_def getModelPricing_def
  MODEL_PRICING_def Object_prototype_keys_def initial_store_def summary_at_def breakdown_at_def
  read_summary_def times_price_def or_zero_def Let_def mutate_all_def summary_parts_def


subsection \<open>The claims about the cost calculator\<close>

text \<open>
  An inherited member is not a pricing record: for the model name \<open>constructor\<close> the
  exact lookup succeeds on \<open>Object.prototype.constructor\<close>, and every cost is \<open>NaN\<close>.
\<close>

lemma getModelPricing_inherited_member:
  "getModelPricing ''constructor'' = ProtoMember ''constructor''
   \<and> pricing_at initial_store (getModelPricing ''constructor'') = None
   \<and> calculateCost initial_store u ''constructor'' = NaN"
  by (simp add: getModelPricing_def MODEL_PRICING_def Object_prototype_keys_def pricing_at_def
      initial_store_def calculateCost_def)

text \<open>
  What the code computes for a model name that is not a member name of
  \<open>Object.prototype\<close>: a pricing record whose output rate is at least its input rate,
  namely the entry stored under the model name itself (compared as it is written); else
  the entry of the first key, in the order of the table, such that the lower-cased model
  name starts with the key or the key starts with the lower-cased model name; else the
  default record.
\<close>

lemma getModelPricing_first_match:
  assumes "model \<notin> set Object_prototype_keys"
  shows "\<exists>p. pricing_at initial_store (getModelPricing model) = Some p
           \<and> price_input p \<le> price_output p
           \<and> (model \<in> set (map fst MODEL_PRICING) \<longrightarrow> getModelPricing model = Entry model)
           \<and> (model \<notin> set (map fst MODEL_PRICING) \<longrightarrow>
                (if \<exists>k \<in> set (map fst MODEL_PRICING). key_matches (toLowerCase model) k
                 then \<exists>i < length MODEL_PRICING.
                        getModelPricing model = Entry (map fst MODEL_PRICING ! i)
                      \<and> key_matches (toLowerCase model) (map fst MODEL_PRICING ! i)
                      \<and> (\<forall>j < i. \<not> key_matches (toLowerCase model) (map fst MODEL_PRICING ! j))
                 else getModelPricing model = Default \<and> p = DEFAULT_PRICING))"
proof -
  from initial_pricing_valid [OF assms] obtain p
    where p: "pricing_at initial_store (getModelPricing model) = Some p"
      and le: "price_input p \<le> price_output p" by blast
  let ?keys = "map fst MODEL_PRICING"
  have exact: "model \<in> set ?keys \<longrightarrow> getModelPricing model = Entry model"
    by (simp add: getModelPricing_def)
  have tiers: "model \<notin> set ?keys \<longrightarrow>
      (if \<exists>k \<in> set ?keys. key_matches (toLowerCase model) k
       then \<exists>i < length MODEL_PRICING.
              getModelPricing model = Entry (?keys ! i)
            \<and> key_matches (toLowerCase model) (?keys ! i)
            \<and> (\<forall>j < i. \<not> key_matches (toLowerCase model) (?keys ! j))
       else getModelPricing model = Default \<and> p = DEFAULT_PRICING)"
  proof
    assume nk: "model \<notin> set ?keys"
    then have g: "getModelPricing model = prefix_loop (toLowerCase model) ?keys"
      using assms by (simp add: getModelPricing_def)
    show "if \<exists>k \<in> set ?keys. key_matches (toLowerCase model) k
       then \<exists>i < length MODEL_PRICING.
              getModelPricing model = Entry (?keys ! i)
            \<and> key_matches (toLowerCase model) (?keys ! i)
            \<and> (\<forall>j < i. \<not> key_matches (toLowerCase model) (?keys ! j))
       else getModelPricing model = Default \<and> p = DEFAULT_PRICING"
    proof (cases "\<exists>k \<in> set ?keys. key_matches (toLowerCase model) k")
      case True
      from prefix_loop_first [OF True] g True show ?thesis by simp
    next
      case False
      then have "prefix_loop (toLowerCase model) ?keys = Default"
        by (simp add: prefix_loop_Default)
      with g p False show ?thesis by (simp add: pricing_at_initial_Default)
    qed
  qed
  from p le exact tiers show ?thesis by blast
qed

text \<open>
  C2. The second tier of \<open>getModelPricing\<close>, its \<open>prefix matching for versioned
  models\<close>, does not find the longest prefix: the loop returns the first key of the
  table that matches, and \<open>gpt-4-turbo\<close> and \<open>gpt-4\<close> come before the keys of the other
  families. So \<open>gpt-4o-2024-08-06\<close>, whose longest prefix among the keys is \<open>gpt-4o\<close>, is
  priced as \<open>gpt-4\<close>, six times the rate of its family; \<open>gpt-4o-mini-2024-12-01\<close> is
  priced as \<open>gpt-4\<close> instead of \<open>gpt-4o-mini\<close>, \<open>gpt-3.5-turbo-16k-0613\<close> as
  \<open>gpt-3.5-turbo\<close> instead of \<open>gpt-3.5-turbo-16k\<close>, and \<open>GPT-4\<close>, whose lower-cased
  name is itself a key, as \<open>gpt-4-turbo\<close>.
\<close>

theorem getModelPricing_misses_longest_prefix:
  "getModelPricing ''gpt-4o-2024-08-06'' = Entry ''gpt-4''
   \<and> spec_pricingFor ''gpt-4o-2024-08-06'' = Entry ''gpt-4o''
   \<and> pricing_at initial_store (getModelPricing ''gpt-4o-2024-08-06'')
       = Some \<lparr>price_input = 3/100, price_output = 6/100\<rparr>
   \<and> pricing_at initial_store (spec_pricingFor ''gpt-4o-2024-08-06'')
       = Some \<lparr>price_input = 5/1000, price_output = 15/1000\<rparr>
   \<and> getModelPricing ''gpt-4o-mini-2024-12-01'' = Entry ''gpt-4''
   \<and> spec_pricingFor ''gpt-4o-mini-2024-12-01'' = Entry ''gpt-4o-mini''
   \<and> getModelPricing ''gpt-3.5-turbo-16k-0613'' = Entry ''gpt-3.5-turbo''
   \<and> spec_pricingFor ''gpt-3.5-turbo-16k-0613'' = Entry ''gpt-3.5-turbo-16k''
   \<and> getModelPricing ''GPT-4'' = Entry ''gpt-4-turbo''
   \<and> spec_pricingFor ''GPT-4'' = Entry ''gpt-4''"
  by (simp add: getModelPricing_def spec_pricingFor_def MODEL_PRICING_def Object_prototype_keys_def
      toLowerCase_def toLowerCase_char_def startsWith_def pricing_at_def initial_store_def)



text \<open>
  C9, as amended. After any sequence of calls on a tracker, the object returned by
  \<open>getTotalUsage()\<close>, and the summary object returned by \<open>getSummary()\<close> together with
  its \<open>usage\<close> and \<open>breakdown\<close> objects, are new objects: whatever a caller assigns to
  them, every later \<open>addUsage\<close>, \<open>getTotalCost\<close>, \<open>getTotalUsage\<close> and
  \<open>getSummary\<close> returns what it would have returned without the assignments. (The
  summary's \<open>pricing\<close> is not a copy: it is the record of the pricing table.)
\<close>

theorem tracker_copies_detached:
  "case exec pre (createCostTracker model st0) of (t, st) \<Rightarrow>
     (case getTotalUsage t st of (r, st1) \<Rightarrow>
        \<forall>ms. (\<forall>(r', v) \<in> set ms. r' = r) \<longrightarrow> run cs (t, mutate_all ms st1) = run cs (t, st1))
   \<and> (case getSummary t st of (s, st1) \<Rightarrow>
        \<forall>ms. (\<forall>(r', v) \<in> set ms. r' \<in> summary_parts st1 s) \<longrightarrow>
             run cs (t, mutate_all ms st1) = run cs (t, st1))"
proof -
  obtain t st where ts: "exec pre (createCostTracker model st0) = (t, st)"
    by (cases "exec pre (createCostTracker model st0)")
  have w: "tracker_wf (t, st)" using tracker_wf_exec [OF tracker_wf_create, of pre model st0] ts by simp
  then obtain n tu where n: "trk_totalUsage t = Fresh n" "n < next_addr st"
    and tu: "usage_at st (trk_totalUsage t) = Some tu" by (auto simp: tracker_wf_def)
  have part1: "\<forall>ms. (\<forall>(r', v) \<in> set ms. r' = fst (getTotalUsage t st)) \<longrightarrow>
      run cs (t, mutate_all ms (snd (getTotalUsage t st))) = run cs (t, snd (getTotalUsage t st))"
  proof (intro allI impI)
    fix ms :: "(ref \<times> obj) list" assume ms: "\<forall>(r', v) \<in> set ms. r' = fst (getTotalUsage t st)"
    have g: "getTotalUsage t st = alloc (UsageObj tu) st" using tu by (simp add: getTotalUsage_def)
    have "\<forall>(r', v) \<in> set ms. r' \<in> Fresh ` {next_addr st}"
      using ms g by (auto simp: alloc_def)
    from run_mutate_all [OF tracker_wf_alloc [OF w, of "UsageObj tu"] owned_alloc1 [OF w, of "UsageObj tu"] this]
    show "run cs (t, mutate_all ms (snd (getTotalUsage t st))) = run cs (t, snd (getTotalUsage t st))"
      using g by simp
  qed
  let ?D = "{next_addr st, Suc (next_addr st), Suc (Suc (next_addr st))}"
  have part2: "\<forall>ms. (\<forall>(r', v) \<in> set ms. r' \<in> summary_parts (snd (getSummary t st)) (fst (getSummary t st))) \<longrightarrow>
      run cs (t, mutate_all ms (snd (getSummary t st))) = run cs (t, snd (getSummary t st))"
  proof (intro allI impI)
    fix ms :: "(ref \<times> obj) list"
    assume ms: "\<forall>(r', v) \<in> set ms. r' \<in> summary_parts (snd (getSummary t st)) (fst (getSummary t st))"
    have parts: "summary_parts (snd (getSummary t st)) (fst (getSummary t st)) = Fresh ` ?D"
      using tu by (auto simp: getSummary_def Let_def alloc_def summary_parts_def summary_at_def)
    have "trk_totalUsage t = Fresh n \<and> n < next_addr (snd (getSummary t st))
        \<and> usage_at (snd (getSummary t st)) (Fresh n) = Some tu"
      using tu n by (simp add: getSummary_def Let_def alloc_def usage_at_def)
    then have w2: "tracker_wf (t, snd (getSummary t st))" unfolding tracker_wf_def by blast
    have o2: "owned ?D (t, snd (getSummary t st))"
      using tu n by (auto simp: owned_def getSummary_def Let_def alloc_def)
    have "\<forall>(r', v) \<in> set ms. r' \<in> Fresh ` ?D" using ms parts by simp
    from run_mutate_all [OF w2 o2 this]
    show "run cs (t, mutate_all ms (snd (getSummary t st))) = run cs (t, snd (getSummary t st))" .
  qed
  show ?thesis unfolding ts using part1 part2 by (simp add: split_beta)
qed

theorem tracker_copies_detached_witness:
  "case exec [AddUsage \<lparr>arg_promptTokens = Some 100, arg_completionTokens = None, arg_totalTokens = Some 150\<rparr>]
          (createCostTracker ''gpt-4'' initial_store) of (t, st) \<Rightarrow>
     (case getSummary t st of (s, st1) \<Rightarrow>
        (\<forall>(r', v) \<in> set [(s, UsageObj \<lparr>promptTokens = 7, completionTokens = 7, totalTokens = 7\<rparr>)].
            r' \<in> summary_parts st1 s)
      \<and> run [GetTotalUsage, GetTotalCost]
            (t, mutate_all [(s, UsageObj \<lparr>promptTokens = 7, completionTokens = 7, totalTokens = 7\<rparr>)] st1)
          = run [GetTotalUsage, GetTotalCost] (t, st1)
      \<and> run [GetTotalUsage, GetTotalCost] (t, st1)
          = [Usage (Some \<lparr>promptTokens = 100, completionTokens = 0, totalTokens = 150\<rparr>),
             Cost (Num (3/1000))])"
  using tracker_copies_detached [where pre = "[AddUsage \<lparr>arg_promptTokens = Some 100, arg_completionTokens = None, arg_totalTokens = Some 150\<rparr>]"
      and model = "''gpt-4''" and ?st0.0 = initial_store and cs = "[GetTotalUsage, GetTotalCost]"]
  by (simp add: cost_eval)

text \<open>
  C9 as it is stated fails for the summary: its \<open>pricing\<close> field refers to the entry of
  the shared table, so an assignment through the returned summary changes the cost the
  tracker computes at the next \<open>addUsage\<close>.
\<close>

theorem getSummary_pricing_alias_counterexample:
  "case createCostTracker ''gpt-4'' initial_store of (t, st) \<Rightarrow>
     case getSummary t st of (s, st1) \<Rightarrow>
       map_option summary_pricing (summary_at st1 s) = Some (Entry ''gpt-4'')
     \<and> run [AddUsage \<lparr>arg_promptTokens = Some 1000, arg_completionTokens = Some 0, arg_totalTokens = Some 1000\<rparr>,
             GetTotalCost] (t, st1)
         = [Done, Cost (Num (3/100))]
     \<and> run [AddUsage \<lparr>arg_promptTokens = Some 1000, arg_completionTokens = Some 0, arg_totalTokens = Some 1000\<rparr>,
             GetTotalCost]
           (t, mutate (Entry ''gpt-4'') (PricingObj \<lparr>price_input = 1, price_output = 1\<rparr>) st1)
         = [Done, Cost (Num 1)]"
  by (simp add: cost_eval)

section \<open>Properties of the content generator\<close>

lemma count_calls_simps [simp]:
  "count_calls [] = 0"
  "count_calls (tr @ tr') = count_calls tr + count_calls tr'"
  "count_calls (ClientCall r # tr) = Suc (count_calls tr)"
  "count_calls (ClientReply out # tr) = count_calls tr"
  "count_calls (Sleep n # tr) = count_calls tr"
  "count_calls (Warn_rate_limited a b c # tr) = count_calls tr"
  "count_calls (Warn_attempt_failed a m c # tr) = count_calls tr"
  "count_calls (OnProgress i t u # tr) = count_calls tr"
  by (simp_all add: count_calls_def is_ClientCall_def)

lemma attempt_once_world:
  "snd (attempt_once client opts w) =
     emit [ClientCall (request_of opts), ClientReply (fst (client (client_state w) (request_of opts)))]
       (w\<lparr>client_state := snd (client (client_state w) (request_of opts))\<rparr>)"
  "fst (attempt_once client opts w) = try_body (fst (client (client_state w) (request_of opts)))"
  by (simp_all add: attempt_once_def split_beta)

lemma trace_emit [simp]: "trace (emit es w) = trace w @ es"
  by (simp add: emit_def)

lemma client_state_emit [simp]: "client_state (emit es w) = client_state w"
  by (simp add: emit_def)

lemma disk_emit [simp]: "disk (emit es w) = disk w"
  by (simp add: emit_def)

lemma objects_emit [simp]: "objects (emit es w) = objects w"
  by (simp add: emit_def)

lemma attempt_loop_done:
  "\<not> attempt \<le> maxRetries_of opts \<Longrightarrow>
   attempt_loop client opts attempt lastError w = (Inl (exhausted (maxRetries_of opts) lastError), w)"
  by (simp add: attempt_loop.simps)

lemma attempt_loop_success:
  assumes "attempt \<le> maxRetries_of opts" "attempt_once client opts w = (Inr r, w1)"
  shows "attempt_loop client opts attempt lastError w = (Inr r, w1)"
  using assms by (subst attempt_loop.simps) simp


lemma failed_call_caught:
  assumes "failed_call out"
  shows "\<exists>e. try_body out = Inl e \<and> err_status e \<noteq> Some 401
           \<and> last_message (Some e)
               = (if failure_message out = [] then ''Unknown error'' else failure_message out)"
proof (cases out)
  case (Inl e)
  with assms show ?thesis
    by (simp add: failed_call_def try_body_def failure_message_def last_message_def)
next
  case (Inr c)
  with assms have "reported_text c = []" by (simp add: failed_call_def)
  then have "first_content c = None \<or> first_content c = Some []"
    by (auto simp: reported_text_def first_content_def split: list.splits option.splits)
  then have "try_body out = Inl (new_Error ''Empty response from OpenAI API'')"
    using Inr by (auto simp: try_body_def)
  then show ?thesis using Inr
    by (simp add: new_Error_def failure_message_def last_message_def)
qed

lemma attempt_loop_all_fail:
  "attempt \<le> maxRetries_of opts \<Longrightarrow>
   list_all failed_call
     (replies client (replicate (Suc (maxRetries_of opts) - attempt) (request_of opts)) (client_state w)) \<Longrightarrow>
    \<exists>e w'. attempt_loop client opts attempt lastError w = (Inl (exhausted (maxRetries_of opts) (Some e)), w')
       \<and> try_body (last (replies client (replicate (Suc (maxRetries_of opts) - attempt) (request_of opts))
                           (client_state w))) = Inl e
       \<and> client_state w'
           = state_after client (replicate (Suc (maxRetries_of opts) - attempt) (request_of opts)) (client_state w)
       \<and> count_calls (trace w') = count_calls (trace w) + (Suc (maxRetries_of opts) - attempt)"
proof (induction client opts attempt lastError w rule: attempt_loop.induct)
  case (1 client opts attempt lastError w)
  let ?req = "request_of opts"
  let ?m = "maxRetries_of opts"
  let ?out = "fst (client (client_state w) ?req)"
  let ?s1 = "snd (client (client_state w) ?req)"
  from "1.prems" have le: "attempt \<le> ?m" by simp
  then have cnt: "Suc ?m - attempt = Suc (?m - attempt)" by simp
  have rep: "replies client (replicate (Suc ?m - attempt) ?req) (client_state w)
      = ?out # replies client (replicate (?m - attempt) ?req) ?s1"
    and sta: "state_after client (replicate (Suc ?m - attempt) ?req) (client_state w)
      = state_after client (replicate (?m - attempt) ?req) ?s1"
    unfolding cnt by simp_all
  from "1.prems"(2) have f0: "failed_call ?out"
    and frest: "list_all failed_call (replies client (replicate (?m - attempt) ?req) ?s1)"
    unfolding rep by simp_all
  from failed_call_caught [OF f0] obtain e where e: "try_body ?out = Inl e" "err_status e \<noteq> Some 401"
    by blast
  define w1 where "w1 = snd (attempt_once client opts w)"
  have ao: "attempt_once client opts w = (Inl e, w1)"
    using e attempt_once_world(2) [of client opts w] w1_def by (simp add: prod_eq_iff)
  have w1: "client_state w1 = ?s1"
    "trace w1 = trace w @ [ClientCall ?req, ClientReply ?out]"
    unfolding w1_def attempt_once_world by simp_all
  show ?case
  proof (cases "attempt < ?m")
    case True
    then have le': "attempt + 1 \<le> ?m" by simp
    have cnt': "Suc ?m - (attempt + 1) = ?m - attempt" by simp
    from True have ne: "replies client (replicate (?m - attempt) ?req) ?s1 \<noteq> []"
      by (cases "?m - attempt") simp_all
    have lst: "last (replies client (replicate (Suc ?m - attempt) ?req) (client_state w))
        = last (replies client (replicate (?m - attempt) ?req) ?s1)"
      unfolding rep using ne by simp
    show ?thesis
    proof (cases "err_status e = Some 429")
      case True
      let ?w2 = "emit [Warn_rate_limited (retryDelay_of opts * attempt * 2) attempt ?m,
                        Sleep (retryDelay_of opts * attempt * 2)] w1"
      have fr: "list_all failed_call
          (replies client (replicate (Suc ?m - (attempt + 1)) ?req) (client_state ?w2))"
        unfolding cnt' using frest w1(1) by simp
      from "1.IH"(1) [OF le ao [symmetric] refl e(2) True le' fr]
      obtain e' w' where r: "attempt_loop client opts (attempt + 1) (Some e) ?w2 = (Inl (exhausted ?m (Some e')), w')"
        "try_body (last (replies client (replicate (Suc ?m - (attempt + 1)) ?req) (client_state ?w2))) = Inl e'"
        "client_state w' = state_after client (replicate (Suc ?m - (attempt + 1)) ?req) (client_state ?w2)"
        "count_calls (trace w') = count_calls (trace ?w2) + (Suc ?m - (attempt + 1))" by blast
      have "attempt_loop client opts attempt lastError w = (Inl (exhausted ?m (Some e')), w')"
        using le ao e(2) True r(1) by (subst attempt_loop.simps) simp
      moreover have "count_calls (trace w') = count_calls (trace w) + (Suc ?m - attempt)"
        using r(4) w1 le by simp
      moreover have "try_body (last (replies client (replicate (Suc ?m - attempt) ?req) (client_state w))) = Inl e'"
        unfolding lst using r(2) w1(1) unfolding cnt' by simp
      moreover have "client_state w' = state_after client (replicate (Suc ?m - attempt) ?req) (client_state w)"
        unfolding sta using r(3) w1(1) unfolding cnt' by simp
      ultimately show ?thesis by blast
    next
      case False
      let ?w2 = "emit [Warn_attempt_failed attempt (err_message e) (retryDelay_of opts),
                        Sleep (retryDelay_of opts * attempt)] w1"
      have fr: "list_all failed_call
          (replies client (replicate (Suc ?m - (attempt + 1)) ?req) (client_state ?w2))"
        unfolding cnt' using frest w1(1) by simp
      from "1.IH"(2) [OF le ao [symmetric] refl e(2) False True le' fr]
      obtain e' w' where r: "attempt_loop client opts (attempt + 1) (Some e) ?w2 = (Inl (exhausted ?m (Some e')), w')"
        "try_body (last (replies client (replicate (Suc ?m - (attempt + 1)) ?req) (client_state ?w2))) = Inl e'"
        "client_state w' = state_after client (replicate (Suc ?m - (attempt + 1)) ?req) (client_state ?w2)"
        "count_calls (trace w') = count_calls (trace ?w2) + (Suc ?m - (attempt + 1))" by blast
      have "attempt_loop client opts attempt lastError w = (Inl (exhausted ?m (Some e')), w')"
        using le ao e(2) False True r(1) by (subst attempt_loop.simps) simp
      moreover have "count_calls (trace w') = count_calls (trace w) + (Suc ?m - attempt)"
        using r(4) w1 le by simp
      moreover have "try_body (last (replies client (replicate (Suc ?m - attempt) ?req) (client_state w))) = Inl e'"
        unfolding lst using r(2) w1(1) unfolding cnt' by simp
      moreover have "client_state w' = state_after client (replicate (Suc ?m - attempt) ?req) (client_state w)"
        unfolding sta using r(3) w1(1) unfolding cnt' by simp
      ultimately show ?thesis by blast
    qed
  next
    case False
    with le have eq: "attempt = ?m" by simp
    have nle: "\<not> attempt + 1 \<le> ?m" using eq by simp
    have one: "replies client (replicate (Suc ?m - attempt) ?req) (client_state w) = [?out]"
      "state_after client (replicate (Suc ?m - attempt) ?req) (client_state w) = ?s1"
      using eq by simp_all
    show ?thesis
    proof (cases "err_status e = Some 429")
      case True
      let ?w2 = "emit [Warn_rate_limited (retryDelay_of opts * attempt * 2) attempt ?m,
                        Sleep (retryDelay_of opts * attempt * 2)] w1"
      have "attempt_loop client opts attempt lastError w = (Inl (exhausted ?m (Some e)), ?w2)"
        using le ao e(2) True attempt_loop_done [OF nle] by (subst attempt_loop.simps) simp
      moreover have "count_calls (trace ?w2) = count_calls (trace w) + (Suc ?m - attempt)"
        using w1 eq by simp
      moreover have "client_state ?w2 = state_after client (replicate (Suc ?m - attempt) ?req) (client_state w)"
        unfolding one using w1 by simp
      moreover have "try_body (last (replies client (replicate (Suc ?m - attempt) ?req) (client_state w))) = Inl e"
        unfolding one using e(1) by simp
      ultimately show ?thesis by blast
    next
      case F2: False
      have "attempt_loop client opts attempt lastError w = (Inl (exhausted ?m (Some e)), w1)"
        using le ao e(2) F2 False attempt_loop_done [OF nle] by (subst attempt_loop.simps) simp
      moreover have "count_calls (trace w1) = count_calls (trace w) + (Suc ?m - attempt)"
        using w1 eq by simp
      moreover have "client_state w1 = state_after client (replicate (Suc ?m - attempt) ?req) (client_state w)"
        unfolding one using w1 by simp
      moreover have "try_body (last (replies client (replicate (Suc ?m - attempt) ?req) (client_state w))) = Inl e"
        unfolding one using e(1) by simp
      ultimately show ?thesis by blast
    qed
  qed
qed

lemma carries_text_chunk:
  assumes "carries_text out"
  shows "try_body out = Inr \<lparr>chunk_content = reply_text out, chunk_usage = reply_usage out\<rparr>"
proof (cases out)
  case (Inl e)
  with assms show ?thesis by (simp add: carries_text_def)
next
  case (Inr c)
  with assms have t: "reported_text c \<noteq> []" by (simp add: carries_text_def)
  then have "first_content c = Some (reported_text c)"
    by (auto simp: reported_text_def first_content_def split: list.splits option.splits)
  moreover have "extract_usage c = reported_usage c"
    by (simp add: extract_usage_def reported_usage_def or_zero_def reported_count_def split: option.splits)
  ultimately show ?thesis using Inr t
    by (simp add: try_body_def reply_text_def reply_usage_def)
qed

lemma generateChunk_first_success:
  assumes "carries_text (fst (client (client_state w) (request_of opts)))" "1 \<le> maxRetries_of opts"
  shows "generateChunk client opts w =
     (Inr \<lparr>chunk_content = reply_text (fst (client (client_state w) (request_of opts))),
           chunk_usage = reply_usage (fst (client (client_state w) (request_of opts)))\<rparr>,
      emit [ClientCall (request_of opts), ClientReply (fst (client (client_state w) (request_of opts)))]
        (w\<lparr>client_state := snd (client (client_state w) (request_of opts))\<rparr>))"
proof -
  let ?out = "fst (client (client_state w) (request_of opts))"
  have res: "try_body ?out = Inr \<lparr>chunk_content = reply_text ?out, chunk_usage = reply_usage ?out\<rparr>"
    using assms(1) by (rule carries_text_chunk)
  have "attempt_once client opts w
      = (Inr \<lparr>chunk_content = reply_text ?out, chunk_usage = reply_usage ?out\<rparr>, snd (attempt_once client opts w))"
    using res attempt_once_world(2) [of client opts w] by (simp add: prod_eq_iff)
  from attempt_loop_success [OF assms(2) this, of None] show ?thesis
    by (simp add: generateChunk_def attempt_once_world)
qed

lemma maxRetries_of_section [simp]:
  "maxRetries_of (section_chunk_options options section i) = (case so_maxRetries options of None \<Rightarrow> 3 | Some n \<Rightarrow> n)"
  by (simp add: maxRetries_of_def section_chunk_options_def)

lemma plus_usage_total: "plus_usage (total_usage us) u = total_usage (us @ [u])"
  by (simp add: plus_usage_def total_usage_def)

lemma upt_from: "i < n \<Longrightarrow> [i..<n] = i # [Suc i..<n]"
  by (simp add: upt_rec)

lemma section_loop_run:
  assumes mr: "so_maxRetries options \<noteq> Some 0" and op: "so_onProgress options"
  shows "i \<le> so_numChunks options \<Longrightarrow>
    list_all carries_text
      (replies client (map (\<lambda>j. request_of (section_chunk_options options section j)) [i..<so_numChunks options])
         (client_state w)) \<Longrightarrow>
    (let reqs = map (\<lambda>j. request_of (section_chunk_options options section j)) [i..<so_numChunks options];
         outs = replies client reqs (client_state w)
     in \<exists>w'. section_loop client options section i chunks (total_usage us) w =
          (Inr \<lparr>res_chunks = chunks @ map reply_text outs,
                res_totalUsage = total_usage (us @ map reply_usage outs)\<rparr>, w')
        \<and> trace w' = trace w @ concat (map (\<lambda>(j, out). [ClientCall (request_of (section_chunk_options options section j)),
                                                       ClientReply out,
                                                       OnProgress j (reply_text out) (reply_usage out)])
                                      (zip [i..<so_numChunks options] outs)))"
proof (induction "so_numChunks options - i" arbitrary: i chunks us w)
  case 0
  then have "\<not> i < so_numChunks options" by simp
  moreover from 0 have "[i..<so_numChunks options] = []" by simp
  ultimately show ?case by (simp add: section_loop.simps)
next
  case (Suc k)
  let ?n = "so_numChunks options"
  from Suc have lt: "i < ?n" by simp
  let ?opts = "section_chunk_options options section i"
  let ?out = "fst (client (client_state w) (request_of ?opts))"
  let ?w1 = "emit [ClientCall (request_of ?opts), ClientReply ?out]
               (w\<lparr>client_state := snd (client (client_state w) (request_of ?opts))\<rparr>)"
  let ?w2 = "emit [OnProgress i (reply_text ?out) (reply_usage ?out)] ?w1"
  from Suc.prems(2) have c0: "carries_text ?out"
    and crest: "list_all carries_text
      (replies client (map (\<lambda>j. request_of (section_chunk_options options section j)) [i + 1..<?n])
         (client_state ?w2))"
    unfolding upt_from [OF lt] by simp_all
  have m1: "1 \<le> maxRetries_of ?opts" using mr by (cases "so_maxRetries options") auto
  have g: "generateChunk client ?opts w
      = (Inr \<lparr>chunk_content = reply_text ?out, chunk_usage = reply_usage ?out\<rparr>, ?w1)"
    by (rule generateChunk_first_success [where client = client and opts = ?opts and w = w, OF c0 m1])
  have step: "section_loop client options section i chunks (total_usage us) w =
      section_loop client options section (i + 1) (chunks @ [reply_text ?out])
        (total_usage (us @ [reply_usage ?out])) ?w2"
    using lt g op by (subst section_loop.simps) (simp add: plus_usage_total)
  have k: "k = ?n - (i + 1)" using Suc(2) by simp
  have le: "i + 1 \<le> ?n" using lt by simp
  from Suc(1) [OF k le crest, of "chunks @ [reply_text ?out]" "us @ [reply_usage ?out]"]
  show ?case
    unfolding step using lt by (simp add: Let_def upt_from [OF lt])
qed

lemma length_replies [simp]: "length (replies client reqs s) = length reqs"
  by (induction reqs arbitrary: s) simp_all

lemma zip_upt_nth: "length rs = n \<Longrightarrow> zip [0..<n] rs = map (\<lambda>i. (i, rs ! i)) [0..<n]"
  by (rule nth_equalityI) simp_all

text \<open>
  C4. The section id is in the catalogue, at least one attempt per chunk is allowed
  (\<open>maxRetries\<close> is absent or not 0), a progress callback is passed, and the client,
  sent the requests of the chunks \<open>0, \<dots>, n - 1\<close> one after the other, resolves each with
  non-empty text (\<open>n = numChunks\<close>). Then \<open>generateSection\<close> returns the \<open>n\<close> texts of
  these replies in call order and, field by field, the sum of the token counts the \<open>n\<close>
  replies report, an absent count being 0. Its trace is: the request of chunk \<open>i\<close>, its
  reply, at once \<open>onProgress(i, text, usage)\<close> with the text and the counts of that
  reply, and only then the request of chunk \<open>i + 1\<close>, for \<open>i = 0, \<dots>, n - 1\<close>.
\<close>

theorem generateSection_in_order:
  assumes "getSectionById (so_sectionId options) = Some section"
      and "so_maxRetries options \<noteq> Some 0"
      and "so_onProgress options"
      and "list_all carries_text (replies client (section_requests options section) (client_state w))"
  shows "let outs = replies client (section_requests options section) (client_state w) in
         \<exists>w'. generateSection client options w =
                 (Inr \<lparr>res_chunks = map reply_text outs,
                       res_totalUsage =
                         \<lparr>promptTokens = (\<Sum>out\<leftarrow>outs. promptTokens (reply_usage out)),
                          completionTokens = (\<Sum>out\<leftarrow>outs. completionTokens (reply_usage out)),
                          totalTokens = (\<Sum>out\<leftarrow>outs. totalTokens (reply_usage out))\<rparr>\<rparr>, w')
             \<and> length outs = so_numChunks options
             \<and> trace w' = trace w @ concat (map (\<lambda>i. [ClientCall (request_of (section_chunk_options options section i)),
                                                       ClientReply (outs ! i),
                                                       OnProgress i (reply_text (outs ! i)) (reply_usage (outs ! i))])
                                            [0..<so_numChunks options])"
proof -
  let ?n = "so_numChunks options"
  let ?outs = "replies client (section_requests options section) (client_state w)"
  have leno: "length ?outs = ?n" by (simp add: section_requests_def)
  have z: "zip [0..<?n] ?outs = map (\<lambda>i. (i, ?outs ! i)) [0..<?n]"
    using leno by (rule zip_upt_nth)
  have ct: "list_all carries_text
      (replies client (map (\<lambda>j. request_of (section_chunk_options options section j)) [0..<?n]) (client_state w))"
    using assms(4) by (simp add: section_requests_def)
  from section_loop_run [OF assms(2) assms(3) _ ct, of "[]" "[]"]
  obtain w' where w': "section_loop client options section 0 [] (total_usage []) w =
          (Inr \<lparr>res_chunks = map reply_text ?outs, res_totalUsage = total_usage (map reply_usage ?outs)\<rparr>, w')"
     "trace w' = trace w @ concat (map (\<lambda>(j, out). [ClientCall (request_of (section_chunk_options options section j)),
                                                       ClientReply out,
                                                       OnProgress j (reply_text out) (reply_usage out)])
                                      (zip [0..<?n] ?outs))"
    by (auto simp: Let_def section_requests_def)
  have t0: "total_usage [] = zero_usage" by (simp add: total_usage_def zero_usage_def)
  have tu: "total_usage (map reply_usage ?outs) =
      \<lparr>promptTokens = (\<Sum>out\<leftarrow>?outs. promptTokens (reply_usage out)),
       completionTokens = (\<Sum>out\<leftarrow>?outs. completionTokens (reply_usage out)),
       totalTokens = (\<Sum>out\<leftarrow>?outs. totalTokens (reply_usage out))\<rparr>"
    by (simp add: total_usage_def comp_def)
  have tr: "trace w' = trace w @ concat (map (\<lambda>i. [ClientCall (request_of (section_chunk_options options section i)),
                                                       ClientReply (?outs ! i),
                                                       OnProgress i (reply_text (?outs ! i)) (reply_usage (?outs ! i))])
                                            [0..<?n])"
    unfolding w'(2) z by (simp add: comp_def)
  have "generateSection client options w =
      (Inr \<lparr>res_chunks = map reply_text ?outs,
            res_totalUsage =
              \<lparr>promptTokens = (\<Sum>out\<leftarrow>?outs. promptTokens (reply_usage out)),
               completionTokens = (\<Sum>out\<leftarrow>?outs. completionTokens (reply_usage out)),
               totalTokens = (\<Sum>out\<leftarrow>?outs. totalTokens (reply_usage out))\<rparr>\<rparr>, w')"
    using assms(1) w'(1) t0 tu by (simp add: generateSection_def)
  with leno tr show ?thesis unfolding Let_def by blast
qed

text \<open>
  C3. \<open>maxRetries\<close> is at least 1 and the client, sent the request \<open>maxRetries\<close> times in
  a row, fails each time, never with status 401: it rejects, or it resolves with empty
  or missing text. Then \<open>generateChunk\<close> rejects after exactly \<open>maxRetries\<close> calls of
  the client (one call for \<open>maxRetries = 1\<close>) with the error
  \<open>Failed to generate content after <maxRetries> attempts: <message>\<close>. The message is
  that of the last of these calls: the message of the error it was rejected with
  (\<open>Unknown error\<close> if that error has an empty message), or
  \<open>Empty response from OpenAI API\<close> if it resolved without text.
\<close>

theorem generateChunk_exhaustion:
  assumes "1 \<le> maxRetries_of opts"
      and "list_all failed_call
             (replies client (replicate (maxRetries_of opts) (request_of opts)) (client_state w))"
  shows "let outs = replies client (replicate (maxRetries_of opts) (request_of opts)) (client_state w);
             message = failure_message (last outs) in
         \<exists>w'. generateChunk client opts w =
                 (Inl \<lparr>err_status = None,
                       err_message = ''Failed to generate content after '' @ String_of_nat (maxRetries_of opts)
                                     @ '' attempts: '' @ (if message = [] then ''Unknown error'' else message)\<rparr>, w')
             \<and> client_state w' = state_after client (replicate (maxRetries_of opts) (request_of opts)) (client_state w)
             \<and> count_calls (trace w') = count_calls (trace w) + maxRetries_of opts"
proof -
  let ?m = "maxRetries_of opts"
  let ?outs = "replies client (replicate ?m (request_of opts)) (client_state w)"
  have s: "Suc ?m - 1 = ?m" by simp
  from attempt_loop_all_fail [of 1 opts client w None] assms
  obtain e w' where r: "attempt_loop client opts 1 None w = (Inl (exhausted ?m (Some e)), w')"
    "try_body (last ?outs) = Inl e"
    "client_state w' = state_after client (replicate ?m (request_of opts)) (client_state w)"
    "count_calls (trace w') = count_calls (trace w) + ?m" unfolding s by auto
  from assms(1) have "?outs \<noteq> []" by (cases ?m) simp_all
  then have "last ?outs \<in> set ?outs" by (rule last_in_set)
  with assms(2) have "failed_call (last ?outs)" by (simp add: list_all_iff)
  from failed_call_caught [OF this] r(2)
  have "last_message (Some e)
      = (if failure_message (last ?outs) = [] then ''Unknown error'' else failure_message (last ?outs))"
    by auto
  with r(1) have "generateChunk client opts w =
      (Inl \<lparr>err_status = None,
            err_message = ''Failed to generate content after '' @ String_of_nat ?m @ '' attempts: ''
              @ (if failure_message (last ?outs) = [] then ''Unknown error'' else failure_message (last ?outs))\<rparr>, w')"
    by (simp add: generateChunk_def exhausted_def new_Error_def)
  with r(3,4) show ?thesis unfolding Let_def by blast
qed

text \<open>
  C10. With \<open>maxRetries = 0\<close> the loop body never runs: \<open>generateChunk\<close> rejects with
  \<open>Failed to generate content after 0 attempts: Unknown error\<close> and leaves the world as
  it was, so the client has not been called.
\<close>

theorem generateChunk_zero_retries:
  assumes "opt_maxRetries opts = Some 0"
  shows "generateChunk client opts w =
           (Inl (new_Error ''Failed to generate content after 0 attempts: Unknown error''), w)"
  using assms
  by (simp add: generateChunk_def attempt_loop.simps maxRetries_of_def exhausted_def last_message_def
      String_of_nat.simps digit_char_def)

lemma String_of_nat_digit: "n < 10 \<Longrightarrow> String_of_nat n = [digit_char n]"
  by (subst String_of_nat.simps) simp

lemma String_of_nat_small [simp]:
  "String_of_nat 0 = ''0''" "String_of_nat (Suc 0) = ''1''" "String_of_nat (Suc (Suc 0)) = ''2''"
  "String_of_nat (Suc (Suc (Suc 0))) = ''3''"
  by (simp_all add: String_of_nat_digit digit_char_def)

lemma replicate_2: "replicate 2 x = [x, x]"
  by (simp add: numeral_2_eq_2)

theorem generateChunk_exhaustion_witness:
  "(1 \<le> maxRetries_of (demo_chunk_options (Some 1))
    \<and> list_all failed_call
        (replies stub_empty (replicate (maxRetries_of (demo_chunk_options (Some 1)))
           (request_of (demo_chunk_options (Some 1)))) (client_state world0))
    \<and> fst (generateChunk stub_empty (demo_chunk_options (Some 1)) world0)
        = Inl \<lparr>err_status = None,
               err_message = ''Failed to generate content after 1 attempts: Empty response from OpenAI API''\<rparr>
    \<and> count_calls (trace (snd (generateChunk stub_empty (demo_chunk_options (Some 1)) world0))) = 1)
   \<and> (1 \<le> maxRetries_of (demo_chunk_options (Some 2))
    \<and> list_all failed_call
        (replies stub_failing (replicate (maxRetries_of (demo_chunk_options (Some 2)))
           (request_of (demo_chunk_options (Some 2)))) (client_state world0))
    \<and> fst (generateChunk stub_failing (demo_chunk_options (Some 2)) world0)
        = Inl \<lparr>err_status = None,
               err_message = ''Failed to generate content after 2 attempts: boom 2''\<rparr>
    \<and> count_calls (trace (snd (generateChunk stub_failing (demo_chunk_options (Some 2)) world0))) = 2)
   \<and> (1 \<le> maxRetries_of (demo_chunk_options (Some 1))
    \<and> list_all failed_call
        (replies stub_blank (replicate (maxRetries_of (demo_chunk_options (Some 1)))
           (request_of (demo_chunk_options (Some 1)))) (client_state world0))
    \<and> fst (generateChunk stub_blank (demo_chunk_options (Some 1)) world0)
        = Inl \<lparr>err_status = None,
               err_message = ''Failed to generate content after 1 attempts: Empty response from OpenAI API''\<rparr>
    \<and> count_calls (trace (snd (generateChunk stub_blank (demo_chunk_options (Some 1)) world0))) = 1)"
proof -
  have m1: "maxRetries_of (demo_chunk_options (Some 1)) = 1"
    and m2: "maxRetries_of (demo_chunk_options (Some 2)) = 2"
    by (simp_all add: maxRetries_of_def demo_chunk_options_def)
  have r1: "replies stub_empty (replicate (maxRetries_of (demo_chunk_options (Some 1)))
           (request_of (demo_chunk_options (Some 1)))) (client_state world0)
      = [Inr (text_completion None)]"
    unfolding m1 by (simp add: stub_empty_def)
  have r2: "replies stub_failing (replicate (maxRetries_of (demo_chunk_options (Some 2)))
           (request_of (demo_chunk_options (Some 2)))) (client_state world0)
      = [Inl \<lparr>err_status = Some 500, err_message = ''boom 1''\<rparr>,
         Inl \<lparr>err_status = Some 500, err_message = ''boom 2''\<rparr>]"
    unfolding m2 by (simp add: replicate_2 stub_failing_def world0_def)
  have a1: "1 \<le> maxRetries_of (demo_chunk_options (Some 1))" unfolding m1 by simp
  have a2: "1 \<le> maxRetries_of (demo_chunk_options (Some 2))" unfolding m2 by simp
  have f1: "list_all failed_call
        (replies stub_empty (replicate (maxRetries_of (demo_chunk_options (Some 1)))
           (request_of (demo_chunk_options (Some 1)))) (client_state world0))"
    unfolding r1 by (simp add: failed_call_def reported_text_def text_completion_def)
  have f2: "list_all failed_call
        (replies stub_failing (replicate (maxRetries_of (demo_chunk_options (Some 2)))
           (request_of (demo_chunk_options (Some 2)))) (client_state world0))"
    unfolding r2 by (simp add: failed_call_def)
  from generateChunk_exhaustion [OF a1 f1]
  have c1: "fst (generateChunk stub_empty (demo_chunk_options (Some 1)) world0)
        = Inl \<lparr>err_status = None,
               err_message = ''Failed to generate content after 1 attempts: Empty response from OpenAI API''\<rparr>"
    and d1: "count_calls (trace (snd (generateChunk stub_empty (demo_chunk_options (Some 1)) world0))) = 1"
    unfolding r1 Let_def unfolding m1 by (auto simp: failure_message_def world0_def)
  from generateChunk_exhaustion [OF a2 f2]
  have c2: "fst (generateChunk stub_failing (demo_chunk_options (Some 2)) world0)
        = Inl \<lparr>err_status = None,
               err_message = ''Failed to generate content after 2 attempts: boom 2''\<rparr>"
    and d2: "count_calls (trace (snd (generateChunk stub_failing (demo_chunk_options (Some 2)) world0))) = 2"
    unfolding r2 Let_def unfolding m2 by (auto simp: failure_message_def world0_def numeral_2_eq_2)
  have r3: "replies stub_blank (replicate (maxRetries_of (demo_chunk_options (Some 1)))
           (request_of (demo_chunk_options (Some 1)))) (client_state world0)
      = [Inr (text_completion (Some []))]"
    unfolding m1 by (simp add: stub_blank_def)
  have f3: "list_all failed_call
        (replies stub_blank (replicate (maxRetries_of (demo_chunk_options (Some 1)))
           (request_of (demo_chunk_options (Some 1)))) (client_state world0))"
    unfolding r3 by (simp add: failed_call_def reported_text_def text_completion_def)
  from generateChunk_exhaustion [OF a1 f3]
  have c3: "fst (generateChunk stub_blank (demo_chunk_options (Some 1)) world0)
        = Inl \<lparr>err_status = None,
               err_message = ''Failed to generate content after 1 attempts: Empty response from OpenAI API''\<rparr>"
    and d3: "count_calls (trace (snd (generateChunk stub_blank (demo_chunk_options (Some 1)) world0))) = 1"
    unfolding r3 Let_def unfolding m1 by (auto simp: failure_message_def world0_def)
  from a1 f1 c1 d1 a2 f2 c2 d2 f3 c3 d3 show ?thesis by blast
qed

theorem generateChunk_zero_retries_witness:
  "opt_maxRetries (demo_chunk_options (Some 0)) = Some 0
   \<and> generateChunk stub_numbered (demo_chunk_options (Some 0)) world0
       = (Inl (new_Error ''Failed to generate content after 0 attempts: Unknown error''), world0)
   \<and> client_state world0 = 0 \<and> trace world0 = []"
proof -
  have h: "opt_maxRetries (demo_chunk_options (Some 0)) = Some 0"
    by (simp add: demo_chunk_options_def)
  from generateChunk_zero_retries [OF h, of stub_numbered world0] h show ?thesis
    by (simp add: world0_def)
qed

lemma upt_3: "[0..<3] = [0, 1, 2]"
  by (simp add: upt_rec)

lemma demo_replies:
  "replies stub_metered (section_requests (demo_section_options 3) demo_section) (client_state world0)
   = [Inr \<lparr>choices = [\<lparr>choice_message = Some \<lparr>msg_content = Some ''Content chunk 1''\<rparr>\<rparr>],
           completion_usage = Some \<lparr>prompt_tokens = Some 100, completion_tokens = Some 50,
                                     total_tokens = Some 150\<rparr>\<rparr>,
      Inr \<lparr>choices = [\<lparr>choice_message = Some \<lparr>msg_content = Some ''Content chunk 2''\<rparr>\<rparr>],
           completion_usage = Some \<lparr>prompt_tokens = Some 200, completion_tokens = None,
                                     total_tokens = Some 200\<rparr>\<rparr>,
      Inr \<lparr>choices = [\<lparr>choice_message = Some \<lparr>msg_content = Some ''Content chunk 3''\<rparr>\<rparr>],
           completion_usage = Some \<lparr>prompt_tokens = Some 300, completion_tokens = Some 50,
                                     total_tokens = Some 350\<rparr>\<rparr>]"
  by (simp add: section_requests_def demo_section_options_def upt_3 world0_def stub_metered_def)

theorem generateSection_in_order_witness:
  "getSectionById (so_sectionId (demo_section_options 3)) = Some demo_section
   \<and> so_maxRetries (demo_section_options 3) \<noteq> Some 0
   \<and> so_onProgress (demo_section_options 3)
   \<and> list_all carries_text
       (replies stub_metered (section_requests (demo_section_options 3) demo_section) (client_state world0))
   \<and> (\<exists>w'. generateSection stub_metered (demo_section_options 3) world0 =
               (Inr \<lparr>res_chunks = [''Content chunk 1'', ''Content chunk 2'', ''Content chunk 3''],
                     res_totalUsage = \<lparr>promptTokens = 600, completionTokens = 100, totalTokens = 700\<rparr>\<rparr>, w')
          \<and> map (\<lambda>e. case e of OnProgress i t u \<Rightarrow> Some (i, t, u) | _ \<Rightarrow> None) (trace w')
              = [None, None,
                 Some (0, ''Content chunk 1'', \<lparr>promptTokens = 100, completionTokens = 50, totalTokens = 150\<rparr>),
                 None, None,
                 Some (1, ''Content chunk 2'', \<lparr>promptTokens = 200, completionTokens = 0, totalTokens = 200\<rparr>),
                 None, None,
                 Some (2, ''Content chunk 3'', \<lparr>promptTokens = 300, completionTokens = 50, totalTokens = 350\<rparr>)])"
proof -
  have h1: "getSectionById (so_sectionId (demo_section_options 3)) = Some demo_section"
    by (simp add: getSectionById_def SECTIONS_def demo_section_options_def demo_section_def)
  have h2: "so_maxRetries (demo_section_options 3) \<noteq> Some 0"
    by (simp add: demo_section_options_def)
  have h3: "so_onProgress (demo_section_options 3)"
    by (simp add: demo_section_options_def)
  have h4: "list_all carries_text
       (replies stub_metered (section_requests (demo_section_options 3) demo_section) (client_state world0))"
    unfolding demo_replies by (simp add: carries_text_def reported_text_def)
  have n: "so_numChunks (demo_section_options 3) = 3" by (simp add: demo_section_options_def)
  from generateSection_in_order [OF h1 h2 h3 h4]
  obtain w' where w': "generateSection stub_metered (demo_section_options 3) world0 =
               (Inr \<lparr>res_chunks = [''Content chunk 1'', ''Content chunk 2'', ''Content chunk 3''],
                     res_totalUsage = \<lparr>promptTokens = 600, completionTokens = 100, totalTokens = 700\<rparr>\<rparr>, w')"
      "trace w' = [ClientCall (request_of (section_chunk_options (demo_section_options 3) demo_section 0)),
           ClientReply (Inr \<lparr>choices = [\<lparr>choice_message = Some \<lparr>msg_content = Some ''Content chunk 1''\<rparr>\<rparr>],
             completion_usage = Some \<lparr>prompt_tokens = Some 100, completion_tokens = Some 50,
                                       total_tokens = Some 150\<rparr>\<rparr>),
           OnProgress 0 ''Content chunk 1'' \<lparr>promptTokens = 100, completionTokens = 50, totalTokens = 150\<rparr>,
           ClientCall (request_of (section_chunk_options (demo_section_options 3) demo_section 1)),
           ClientReply (Inr \<lparr>choices = [\<lparr>choice_message = Some \<lparr>msg_content = Some ''Content chunk 2''\<rparr>\<rparr>],
             completion_usage = Some \<lparr>prompt_tokens = Some 200, completion_tokens = None,
                                       total_tokens = Some 200\<rparr>\<rparr>),
           OnProgress 1 ''Content chunk 2'' \<lparr>promptTokens = 200, completionTokens = 0, totalTokens = 200\<rparr>,
           ClientCall (request_of (section_chunk_options (demo_section_options 3) demo_section 2)),
           ClientReply (Inr \<lparr>choices = [\<lparr>choice_message = Some \<lparr>msg_content = Some ''Content chunk 3''\<rparr>\<rparr>],
             completion_usage = Some \<lparr>prompt_tokens = Some 300, completion_tokens = Some 50,
                                       total_tokens = Some 350\<rparr>\<rparr>),
           OnProgress 2 ''Content chunk 3'' \<lparr>promptTokens = 300, completionTokens = 50, totalTokens = 350\<rparr>]"
    unfolding demo_replies Let_def n
    by (auto simp: reply_text_def reply_usage_def reported_text_def reported_usage_def reported_count_def
        upt_3 world0_def)
  have "\<exists>w'. generateSection stub_metered (demo_section_options 3) world0 =
               (Inr \<lparr>res_chunks = [''Content chunk 1'', ''Content chunk 2'', ''Content chunk 3''],
                     res_totalUsage = \<lparr>promptTokens = 600, completionTokens = 100, totalTokens = 700\<rparr>\<rparr>, w')
          \<and> map (\<lambda>e. case e of OnProgress i t u \<Rightarrow> Some (i, t, u) | _ \<Rightarrow> None) (trace w')
              = [None, None,
                 Some (0, ''Content chunk 1'', \<lparr>promptTokens = 100, completionTokens = 50, totalTokens = 150\<rparr>),
                 None, None,
                 Some (1, ''Content chunk 2'', \<lparr>promptTokens = 200, completionTokens = 0, totalTokens = 200\<rparr>),
                 None, None,
                 Some (2, ''Content chunk 3'', \<lparr>promptTokens = 300, completionTokens = 50, totalTokens = 350\<rparr>)]"
    by (rule exI [of _ w']) (simp add: w')
  with h1 h2 h3 h4 show ?thesis by blast
qed

section \<open>Properties of the build\<close>

lemmas fs_eval = lookup_def ensureDir_def fs_writeFile_def fs_readFile_def readdir_def
  ensureDirectory_def writeFile_def writeZipToFile_def emit_def zip_file_def path_join_def
  extname_def toLowerCase_def toLowerCase_char_def or_true_def fs_error_def new_Error_def
  path_string_def Let_def

lemmas gen_eval = generateChunk_def attempt_loop.simps attempt_once_def try_body_def first_content_def
  extract_usage_def or_zero_def request_of_def maxTokens_of_def maxRetries_of_def retryDelay_of_def
  exhausted_def last_message_def

lemmas build_eval = build_def sections_loop.simps processSection_def chunk_loop.simps
  build_chunk_options_def usage_to_arg_def createSectionZip_def addDirectoryToZip.simps
  createMasterZip_def add_optional_def generateSectionPdfs_def section_work.simps
  getSectionById_def SECTIONS_def separator_def

text \<open>
  C1, evaluated where the code departs from it. With \<open>includeSourceFiles = false\<close> and
  \<open>includePdfs = false\<close> the list of extensions is empty, \<open>createSectionZip\<close> passes
  \<open>null\<close> for it, and \<open>addDirectoryToZip\<close> then takes every file: the archive of a
  directory holding \<open>branding.txt\<close> contains \<open>branding/branding.txt\<close>. So does the
  section archive of a run from end to end with \<open>generatePDFs = false\<close>, where the
  entry is the combined text of the two chunks.
\<close>

theorem createSectionZip_no_filter_keeps_text:
  "(case createSectionZip
          \<lparr>sz_sectionId = ''branding'', sz_sectionDir = [''out'', ''branding''], sz_outputDir = [''out''],
           sz_includeSourceFiles = Some False, sz_includePdfs = Some False\<rparr>
          (world0\<lparr>disk := demo_disk\<rparr>) of (r, w') \<Rightarrow>
      r = Inr [''out'', ''branding.zip'']
    \<and> lookup (disk w') [''out'', ''branding.zip'']
        = Some (File (Archive [(''branding/branding.txt'', Text ''A'')])))
   \<and> (case build stub_ab no_renderer (demo_config [''branding'']) ''sk-test'' [''home''] world0 of (r, w') \<Rightarrow>
        map_sum id br_totalChunks r = Inr 2
      \<and> cfg_generatePDFs (demo_config [''branding'']) = False
      \<and> lookup (disk w') [''home'', ''dist'', ''NeonPromptEngine'', ''branding.zip'']
          = Some (File (Archive [(''branding/branding.txt'', Text (''A'' @ separator @ ''B''))])))"
proof -
  have a: "case createSectionZip
          \<lparr>sz_sectionId = ''branding'', sz_sectionDir = [''out'', ''branding''], sz_outputDir = [''out''],
           sz_includeSourceFiles = Some False, sz_includePdfs = Some False\<rparr>
          (world0\<lparr>disk := demo_disk\<rparr>) of (r, w') \<Rightarrow>
      r = Inr [''out'', ''branding.zip'']
    \<and> lookup (disk w') [''out'', ''branding.zip'']
        = Some (File (Archive [(''branding/branding.txt'', Text ''A'')]))"
    by (simp add: createSectionZip_def addDirectoryToZip.simps fs_eval world0_def demo_disk_def)
  have b: "case build stub_ab no_renderer (demo_config [''branding'']) ''sk-test'' [''home''] world0 of (r, w') \<Rightarrow>
        map_sum id br_totalChunks r = Inr 2
      \<and> cfg_generatePDFs (demo_config [''branding'']) = False
      \<and> lookup (disk w') [''home'', ''dist'', ''NeonPromptEngine'', ''branding.zip'']
          = Some (File (Archive [(''branding/branding.txt'', Text (''A'' @ separator @ ''B''))]))"
    by (simp add: build_eval gen_eval fs_eval cost_eval world0_def demo_config_def stub_ab_def
        text_completion_def demo_branding_def)
  from a b show ?thesis by (rule conjI)
qed

lemma section_work_known: "section_work (known_ids ids) ov = section_work ids ov"
  by (induction ids) (auto simp: known_ids_def split: option.splits)

lemma build_chunk_options_selection [simp]:
  "build_chunk_options (config\<lparr>cfg_selectedSections := x\<rparr>) = build_chunk_options config"
  by (intro ext) (simp add: build_chunk_options_def)

lemma chunk_loop_selection [simp]:
  "chunk_loop client (config\<lparr>cfg_selectedSections := x\<rparr>) sec numChunks i contents t w
   = chunk_loop client config sec numChunks i contents t w"
proof (induction "numChunks - i" arbitrary: i contents t w)
  case 0
  then show ?case
    by (subst chunk_loop.simps, subst (2) chunk_loop.simps) simp
next
  case (Suc k)
  then have k: "k = numChunks - Suc i" by simp
  show ?case
    by (subst chunk_loop.simps, subst (2) chunk_loop.simps)
      (simp add: Suc(1) [OF k] split: prod.splits sum.splits)
qed

lemma processSection_selection [simp]:
  "processSection client render (config\<lparr>cfg_selectedSections := x\<rparr>) section numChunks outputDir t w
   = processSection client render config section numChunks outputDir t w"
  by (simp add: processSection_def cong: prod.case_cong sum.case_cong)

lemma sections_loop_selection:
  "sections_loop client render (config\<lparr>cfg_selectedSections := x\<rparr>) outputDir work results t w
   = sections_loop client render (config\<lparr>cfg_selectedSections := y\<rparr>) outputDir work results t w"
proof (induction work arbitrary: results t w)
  case Nil
  show ?case by simp
next
  case (Cons a work)
  obtain sec n where a: "a = (sec, n)" by (cases a)
  show ?case unfolding a by (simp add: Cons.IH split: prod.splits sum.splits)
qed

text \<open>
  C5, as amended. \<open>generateSection\<close> called with an id that is not in the catalogue
  rejects with \<open>Unknown section ID: <id>\<close> and leaves the world as it was: no request
  has been sent and nothing written. \<open>build\<close> does not call \<open>generateSection\<close>; it
  drops the ids that are not in the catalogue when it draws up its work list, without
  an error, so that a run behaves as the run of the same selection without those ids.
\<close>

theorem unknown_section_id_handling:
  "(getSectionById (so_sectionId options) = None \<longrightarrow>
      generateSection client options w
      = (Inl (new_Error (''Unknown section ID: '' @ so_sectionId options)), w))
   \<and> build client' render (config\<lparr>cfg_selectedSections := Some ids\<rparr>) apiKey cwd w'
     = build client' render (config\<lparr>cfg_selectedSections := Some (known_ids ids)\<rparr>) apiKey cwd w'"
proof -
  have "sections_loop client' render (config\<lparr>cfg_selectedSections := Some ids\<rparr>)
      = sections_loop client' render (config\<lparr>cfg_selectedSections := Some (known_ids ids)\<rparr>)"
    by (intro ext) (simp add: sections_loop_selection)
  then show ?thesis
    by (simp add: generateSection_def build_def section_work_known Let_def
        cong: prod.case_cong sum.case_cong)
qed

theorem unknown_section_id_handling_witness:
  "getSectionById (so_sectionId ((demo_section_options 1)\<lparr>so_sectionId := ''unknown_section_xyz''\<rparr>)) = None
   \<and> generateSection stub_ab ((demo_section_options 1)\<lparr>so_sectionId := ''unknown_section_xyz''\<rparr>) world0
      = (Inl (new_Error ''Unknown section ID: unknown_section_xyz''), world0)
   \<and> known_ids [''unknown_section_xyz'', ''branding''] = [''branding'']"
proof -
  have h: "getSectionById (so_sectionId ((demo_section_options 1)\<lparr>so_sectionId := ''unknown_section_xyz''\<rparr>)) = None"
    by (simp add: getSectionById_def SECTIONS_def)
  have k: "known_ids [''unknown_section_xyz'', ''branding''] = [''branding'']"
    by (simp add: known_ids_def getSectionById_def SECTIONS_def)
  from unknown_section_id_handling [where options = "(demo_section_options 1)\<lparr>so_sectionId := ''unknown_section_xyz''\<rparr>"
      and client = stub_ab and w = world0 and client' = stub_ab and render = no_renderer
      and config = "demo_config []" and ids = "[''unknown_section_xyz'', ''branding'']"
      and apiKey = "''sk-test''" and cwd = "[''home'']" and w' = world0]
    h k show ?thesis by simp
qed

text \<open>
  C5 as it is stated fails for the build: a run whose selection names only an id that is
  not in the catalogue raises nothing. It completes with no section processed and no
  request sent.
\<close>

theorem build_unknown_section_counterexample:
  "getSectionById ''unknown_section_xyz'' = None
   \<and> (case build stub_ab no_renderer (demo_config [''unknown_section_xyz'']) ''sk-test'' [''home''] world0 of
         (r, w') \<Rightarrow> map_sum id br_sections r = Inr [] \<and> count_calls (trace w') = 0)"
  by (simp add: build_eval gen_eval fs_eval cost_eval world0_def demo_config_def stub_ab_def
      text_completion_def demo_branding_def count_calls_def is_ClientCall_def)

subsection \<open>A rejected credential\<close>

lemma count_calls_disk [simp]:
  "count_calls (EnsureDir p # tr) = count_calls tr"
  "count_calls (WriteFile p c # tr) = count_calls tr"
  "count_calls (ReadDir p # tr) = count_calls tr"
  "count_calls (ReadFile p # tr) = count_calls tr"
  "count_calls (RenderPdf p # tr) = count_calls tr"
  "count_calls (ProgressStart n # tr) = count_calls tr"
  "count_calls (ProgressIncrement l i n # tr) = count_calls tr"
  "count_calls (ProgressStop # tr) = count_calls tr"
  "count_calls (LogError m # tr) = count_calls tr"
  by (simp_all add: count_calls_def is_ClientCall_def)

lemma calls_ensureDirectory [simp]:
  "count_calls (trace (snd (ensureDirectory p w))) = count_calls (trace w)"
  by (simp add: ensureDirectory_def split: sum.splits)

lemma calls_writeFile [simp]:
  "count_calls (trace (snd (writeFile p c w))) = count_calls (trace w)"
proof (cases "ensureDirectory (butlast p) w")
  case (Pair r w1)
  then have "count_calls (trace w1) = count_calls (trace w)"
    using calls_ensureDirectory [of "butlast p" w] by simp
  with Pair show ?thesis
    by (cases r) (simp_all add: writeFile_def split: sum.splits)
qed

lemma calls_render_loop [simp]:
  "count_calls (trace (snd (render_loop render dir sid i cs ps w))) = count_calls (trace w)"
proof (induction cs arbitrary: i ps w)
  case Nil
  show ?case by simp
next
  case (Cons c cs)
  show ?case
    by (simp add: Let_def Cons.IH split: option.splits sum.splits)
qed

lemma calls_createSectionZip [simp]:
  "count_calls (trace (snd (createSectionZip options w))) = count_calls (trace w)"
proof -
  have wz: "\<And>zp p w. count_calls (trace (snd (writeZipToFile zp p w))) = count_calls (trace w)"
    by (simp add: writeZipToFile_def)
  have wz': "\<And>zp p w r w'. writeZipToFile zp p w = (r, w') \<Longrightarrow> count_calls (trace w') = count_calls (trace w)"
    using wz by (metis snd_conv)
  show ?thesis
    unfolding createSectionZip_def Let_def
    by (auto split: sum.splits prod.splits dest: wz')
qed

lemma calls_add_section_zips [simp]:
  "count_calls (trace (snd (add_section_zips ps zp w))) = count_calls (trace w)"
proof (induction ps arbitrary: zp w)
  case Nil
  show ?case by simp
next
  case (Cons p ps)
  show ?case by (simp add: Cons.IH split: sum.splits)
qed

lemma calls_add_optional [simp]:
  "count_calls (trace (snd (add_optional p name zp w))) = count_calls (trace w)"
  by (simp add: add_optional_def split: option.splits sum.splits)

lemma calls_createMasterZip [simp]:
  "count_calls (trace (snd (createMasterZip ps out rp lp w))) = count_calls (trace w)"
proof -
  obtain r1 w1 where s1: "add_section_zips ps [] w = (r1, w1)" by (cases "add_section_zips ps [] w")
  have c1: "count_calls (trace w1) = count_calls (trace w)"
    using calls_add_section_zips [of ps "[]" w] s1 by simp
  show ?thesis
  proof (cases r1)
    case (Inl e)
    with s1 c1 show ?thesis by (simp add: createMasterZip_def)
  next
    case (Inr z1)
    obtain r2 w2 where s2: "add_optional rp ''README.md'' z1 w1 = (r2, w2)"
      by (cases "add_optional rp ''README.md'' z1 w1")
    have c2: "count_calls (trace w2) = count_calls (trace w)"
      using calls_add_optional [of rp "''README.md''" z1 w1] s2 c1 by simp
    show ?thesis
    proof (cases r2)
      case (Inl e)
      with s1 s2 c2 \<open>r1 = Inr z1\<close> show ?thesis by (simp add: createMasterZip_def)
    next
      case (Inr z2)
      obtain r3 w3 where s3: "add_optional lp ''LICENSE.txt'' z2 w2 = (r3, w3)"
        by (cases "add_optional lp ''LICENSE.txt'' z2 w2")
      have c3: "count_calls (trace w3) = count_calls (trace w)"
        using calls_add_optional [of lp "''LICENSE.txt''" z2 w2] s3 c2 by simp
      show ?thesis
      proof (cases r3)
        case (Inl e)
        with s1 s2 s3 c3 \<open>r1 = Inr z1\<close> \<open>r2 = Inr z2\<close> show ?thesis
          by (simp add: createMasterZip_def)
      next
        case (Inr z3)
        obtain r4 w4 where s4: "writeZipToFile z3 out w3 = (r4, w4)"
          by (cases "writeZipToFile z3 out w3")
        from s4 have "w4 = snd (writeFile out (Archive z3) w3)" by (simp add: writeZipToFile_def)
        then have c4: "count_calls (trace w4) = count_calls (trace w)"
          using c3 by simp
        with s1 s2 s3 s4 \<open>r1 = Inr z1\<close> \<open>r2 = Inr z2\<close> \<open>r3 = Inr z3\<close> show ?thesis
          by (cases r4) (simp_all add: createMasterZip_def)
      qed
    qed
  qed
qed


lemma at_most_one_call_same: "count_calls (trace w') = count_calls (trace w) \<Longrightarrow> at_most_one_call w r w'"
  by (simp add: at_most_one_call_def)

lemma at_most_one_call_Inr: "at_most_one_call w (Inr x) w' \<Longrightarrow> count_calls (trace w') = count_calls (trace w)"
  by (simp add: at_most_one_call_def)

lemma at_most_one_call_from:
  "count_calls (trace w1) = count_calls (trace w) \<Longrightarrow> at_most_one_call w1 (Inl e) w' \<Longrightarrow> at_most_one_call w (Inl e) w'"
  by (simp add: at_most_one_call_def)


lemma calls_generateSectionPdfs [simp]:
  "count_calls (trace (snd (generateSectionPdfs render cs dir sid w))) = count_calls (trace w)"
  by (simp only: generateSectionPdfs_def calls_render_loop)








subsection \<open>Generation before writing\<close>















end
